theory Spec2Isabelle
  imports Complex_Main "HOL-Library.Log_Nat" "HOL-Library.List_Lexorder" "HOL-Library.Char_ord"
    "HOL-Library.AList"
begin

section \<open>Python values, errors and builtins used by data.py\<close>

text \<open>
  The script is Python 3 (it opens its inputs with \<^verbatim>\<open>open(..., newline='')\<close>). Every
  exception the script can raise is a value of \<open>error\<close>; a computation that may raise
  returns \<open>error + 'a\<close>, with \<open>Inl\<close> the exception. No exception is caught anywhere in
  the script, so an \<open>Inl\<close> is the failure of the whole run.
\<close>

datatype error =
    KeyError string
  | IndexError
  | ValueError
  | TypeError
  | ZeroDivisionError
  | OverflowError

definition bindE :: "error + 'a \<Rightarrow> ('a \<Rightarrow> error + 'b) \<Rightarrow> error + 'b" where
  "bindE m f = (case m of Inl e \<Rightarrow> Inl e | Inr x \<Rightarrow> f x)"

text \<open>Python's short-circuit \<^verbatim>\<open>and\<close> / \<^verbatim>\<open>or\<close>: the right operand is evaluated, and
  can raise, only when the left one does not decide.\<close>

definition andE :: "error + bool \<Rightarrow> error + bool \<Rightarrow> error + bool" where
  "andE a b = bindE a (\<lambda>x. if x then b else Inr False)"

definition orE :: "error + bool \<Rightarrow> error + bool \<Rightarrow> error + bool" where
  "orE a b = bindE a (\<lambda>x. if x then Inr True else b)"

text \<open>A loop whose body may raise: the first exception ends it.\<close>

fun foldE :: "('a \<Rightarrow> 's \<Rightarrow> error + 's) \<Rightarrow> 'a list \<Rightarrow> 's \<Rightarrow> error + 's" where
  "foldE f [] s = Inr s"
| "foldE f (x # xs) s = bindE (f x s) (foldE f xs)"

text \<open>
  A row of a CSV file read into a dict (\<^verbatim>\<open>dict_row[headers[i]] = cell\<close>) is an association
  list with unique keys in insertion order; \<^verbatim>\<open>d[k]\<close> raises KeyError on a missing key.
\<close>

type_synonym dict = "(string \<times> string) list"

definition getitem :: "dict \<Rightarrow> string \<Rightarrow> error + string" where
  "getitem d k = (case map_of d k of None \<Rightarrow> Inl (KeyError k) | Some v \<Rightarrow> Inr v)"

text \<open>\<^verbatim>\<open>d[k] == v\<close>\<close>

definition item_is :: "dict \<Rightarrow> string \<Rightarrow> string \<Rightarrow> error + bool" where
  "item_is d k v = bindE (getitem d k) (\<lambda>x. Inr (x = v))"

text \<open>\<^verbatim>\<open>row[i]\<close> on a list, for a non-negative index.\<close>

definition index :: "'a list \<Rightarrow> nat \<Rightarrow> error + 'a" where
  "index xs i = (if i < length xs then Inr (xs ! i) else Inl IndexError)"

text \<open>
  \<^verbatim>\<open>str.lower()\<close>, for ASCII text: the letters A to Z are mapped to a to z and every other
  byte is kept. (Python also lowercases letters outside ASCII; no theorem below depends on
  what \<open>lower\<close> does to any character.)
\<close>

definition lower_char :: "char \<Rightarrow> char" where
  "lower_char c =
     (let n = (of_char c :: nat) in if 65 \<le> n \<and> n \<le> 90 then char_of (n + 32) else c)"

definition lower :: "string \<Rightarrow> string" where
  "lower s = map lower_char s"

text \<open>\<^verbatim>\<open>s.startswith(p)\<close>\<close>

definition startswith :: "string \<Rightarrow> string \<Rightarrow> bool" where
  "startswith s p = (take (length p) s = p)"

text \<open>
  \<^verbatim>\<open>int(s)\<close> on a string. A character of a \<open>string\<close> is a code point below 256. CPython
  first maps the whitespace outside ASCII, here the code points 133 and 160, to a blank, and
  then skips on both sides the characters 9 to 13 and 32; the separators 28 to 31, which
  \<^verbatim>\<open>str.strip\<close> removes, are not skipped. One sign is allowed, and the rest is a non-empty
  run of the digits 0 to 9 in which single underscores may separate digits (no code point
  from 128 to 255 is a decimal digit). The interpreter refuses more than 4300 digits (the
  default limit of Python 3.11 and of the later releases of 3.7 to 3.10). Anything else
  raises ValueError; \<open>py_int\<close> returns \<open>None\<close> there.
\<close>

definition is_space :: "char \<Rightarrow> bool" where
  "is_space c = (let n = (of_char c :: nat) in n = 32 \<or> (9 \<le> n \<and> n \<le> 13) \<or> n = 133 \<or> n = 160)"

definition is_digit :: "char \<Rightarrow> bool" where
  "is_digit c = (let n = (of_char c :: nat) in 48 \<le> n \<and> n \<le> 57)"

definition digit_value :: "char \<Rightarrow> int" where
  "digit_value c = int (of_char c) - 48"

fun parse_digits :: "string \<Rightarrow> int \<Rightarrow> int option" where
  "parse_digits [] acc = Some acc"
| "parse_digits (c # cs) acc =
     (if is_digit c then parse_digits cs (10 * acc + digit_value c)
      else if c = CHR ''_'' then
        (case cs of [] \<Rightarrow> None | d # ds \<Rightarrow> if is_digit d then parse_digits cs acc else None)
      else None)"

definition parse_unsigned :: "string \<Rightarrow> int option" where
  "parse_unsigned s =
     (case s of
        [] \<Rightarrow> None
      | c # cs \<Rightarrow>
          if is_digit c \<and> length (filter is_digit s) \<le> 4300 then parse_digits s 0 else None)"

definition strip :: "string \<Rightarrow> string" where
  "strip s = rev (dropWhile is_space (rev (dropWhile is_space s)))"

definition py_int :: "string \<Rightarrow> int option" where
  "py_int s =
     (case strip s of
        [] \<Rightarrow> None
      | c # cs \<Rightarrow>
          if c = CHR ''-'' then map_option uminus (parse_unsigned cs)
          else if c = CHR ''+'' then parse_unsigned cs
          else parse_unsigned (c # cs))"

definition int_of_str :: "string \<Rightarrow> error + int" where
  "int_of_str s = (case py_int s of None \<Rightarrow> Inl ValueError | Some n \<Rightarrow> Inr n)"

subsection \<open>Floating point: true division, multiplication and \<^verbatim>\<open>round\<close>\<close>

text \<open>
  \<^verbatim>\<open>percent\<close> computes \<^verbatim>\<open>round((num / denom) * 100)\<close> on IEEE 754 binary64 numbers. A
  finite double is modelled by the rational number it denotes. \<open>fl q\<close> is the double
  nearest to \<open>q\<close> with ties going to the even significand: the significand has 53 bits,
  so the spacing of doubles around \<open>q\<close> is \<open>2 powi (ilog2 \<bar>q\<bar> - 52)\<close>, and not less than
  \<open>2 powi (- 1074)\<close> for subnormal numbers. A result of magnitude \<open>2 ^ 1024\<close> or more
  overflows. Python's \<^verbatim>\<open>int / int\<close> returns the correctly rounded quotient, raises
  ZeroDivisionError for a zero divisor and OverflowError when the quotient overflows; a
  float product that overflows is an infinity; \<^verbatim>\<open>round(x)\<close> returns the integer nearest to
  the double \<open>x\<close>, the even one when there are two, and raises OverflowError on an infinity.
\<close>

definition round_half_even :: "rat \<Rightarrow> int" where
  "round_half_even x =
     (let f = \<lfloor>x\<rfloor>; r = x - of_int f
      in if r < 1 / 2 then f else if 1 / 2 < r then f + 1 else if even f then f else f + 1)"

text \<open>\<open>ilog2 q\<close> is \<open>\<lfloor>log 2 q\<rfloor>\<close> for a positive rational.\<close>

definition ilog2 :: "rat \<Rightarrow> int" where
  "ilog2 q =
     (let (a, b) = quotient_of q; t = bitlen a - bitlen b
      in if 2 powi t \<le> q then t else t - 1)"

definition ulp_exponent :: "rat \<Rightarrow> int" where
  "ulp_exponent q = max (ilog2 \<bar>q\<bar> - 52) (- 1074)"

definition fl :: "rat \<Rightarrow> rat" where
  "fl q =
     (if q = 0 then 0
      else let e = ulp_exponent q
           in of_int (round_half_even (q / 2 powi e)) * 2 powi e)"

datatype pyfloat = Finite rat | Infinity

definition to_float :: "rat \<Rightarrow> pyfloat" where
  "to_float q = (let x = fl q in if 2 ^ 1024 \<le> \<bar>x\<bar> then Infinity else Finite x)"

definition truediv :: "int \<Rightarrow> int \<Rightarrow> error + pyfloat" where
  "truediv num denom =
     (if denom = 0 then Inl ZeroDivisionError
      else case to_float (of_int num / of_int denom) of
             Infinity \<Rightarrow> Inl OverflowError
           | Finite x \<Rightarrow> Inr (Finite x))"

fun float_mul :: "pyfloat \<Rightarrow> rat \<Rightarrow> pyfloat" where
  "float_mul (Finite x) y = to_float (x * y)"
| "float_mul Infinity y = Infinity"

fun py_round :: "pyfloat \<Rightarrow> error + int" where
  "py_round (Finite x) = Inr (round_half_even x)"
| "py_round Infinity = Inl OverflowError"

section \<open>Utilities of data.py\<close>

text \<open>\<^verbatim>\<open>def percent(num, denom): return round((num / denom) * 100)\<close>\<close>

definition percent :: "int \<Rightarrow> int \<Rightarrow> error + int" where
  "percent num denom = bindE (truediv num denom) (\<lambda>x. py_round (float_mul x 100))"

definition boolean_nice :: "string \<Rightarrow> int" where
  "boolean_nice v = (if v = ''True'' then 1 else if v = ''False'' then 0 else - 1)"

definition boolean_for :: "string \<Rightarrow> bool" where
  "boolean_for s = (if s = ''False'' then False else True)"

definition branch_for :: "string \<Rightarrow> string" where
  "branch_for agency =
     (if agency \<in> set [''Library of Congress'', ''The Legislative Branch (Congress)'',
                       ''Government Printing Office'', ''Congressional Office of Compliance'']
      then ''legislative''
      else if agency \<in> set [''The Judicial Branch (Courts)''] then ''judicial''
      else if agency \<in> set [''Non-Federal Agency''] then ''non-federal''
      else ''executive'')"

section \<open>The data loaded from the input CSVs\<close>

text \<open>
  \<^verbatim>\<open>domain_data[domain]\<close> is a dict with the keys \<^verbatim>\<open>'branch'\<close> and \<^verbatim>\<open>'agency'\<close>, always
  present, and \<^verbatim>\<open>'inspect'\<close>, \<^verbatim>\<open>'tls'\<close>, \<^verbatim>\<open>'analytics'\<close>, present once a row of that file
  was attached.
\<close>

record domain_rec =
  branch :: string
  agency :: string
  inspect :: "dict option"
  tls :: "dict option"
  analytics :: "dict option"

text \<open>
  The rows built for the tables. The fields of a row are named after the keys of
  \<^verbatim>\<open>LABELS\<close>; in the script the dict key is the label text (\<^verbatim>\<open>LABELS['https']\<close> is
  \<^verbatim>\<open>'Uses HTTPS'\<close>, and so on).
\<close>

record https_row =
  h_Domain :: string
  h_Canonical :: string
  h_Agency :: string
  h_https :: int
  h_https_forced :: int
  h_hsts :: int
  h_hsts_age :: "int option"
  h_grade :: int
  h_fs :: "int option"
  h_sig :: "string option"
  h_rc4 :: "bool option"
  h_ssl3 :: "bool option"
  h_tls12 :: "bool option"

record analytics_row =
  a_Domain :: string
  a_Canonical :: string
  a_Agency :: string
  a_dap :: int

record https_agency_row =
  ha_Agency :: string
  ha_Number_of_Domains :: int
  ha_https :: int
  ha_https_forced :: int
  ha_hsts :: int
  ha_grade_agencies :: int

record analytics_agency_row =
  aa_Agency :: string
  aa_Number_of_Domains :: int
  aa_dap :: int

text \<open>A cell of the small tables written for the charts: a string or a number.\<close>

datatype cell = S string | I int

text \<open>The module-level variables of the script.\<close>

record state =
  domain_data :: "string \<rightharpoonup> domain_rec"
  agency_data :: "string \<rightharpoonup> string list"
  domains :: "string list"
  agencies :: "string list"
  https_domains :: "https_row list"
  analytics_domains :: "analytics_row list"
  https_agencies :: "https_agency_row list"
  analytics_agencies :: "analytics_agency_row list"
  https_stats :: "cell list list"
  analytics_stats :: "cell list list"

definition initial :: state where
  "initial = \<lparr>domain_data = Map.empty, agency_data = Map.empty, domains = [], agencies = [],
     https_domains = [], analytics_domains = [], https_agencies = [], analytics_agencies = [],
     https_stats = [], analytics_stats = []\<rparr>"

text \<open>\<^verbatim>\<open>domain_data[domain]\<close> and \<^verbatim>\<open>domain_data[domain]['inspect']\<close>\<close>

definition lookup_domain :: "(string \<rightharpoonup> domain_rec) \<Rightarrow> string \<Rightarrow> error + domain_rec" where
  "lookup_domain dd domain = (case dd domain of None \<Rightarrow> Inl (KeyError domain) | Some r \<Rightarrow> Inr r)"

definition subrecord :: "dict option \<Rightarrow> string \<Rightarrow> error + dict" where
  "subrecord d k = (case d of None \<Rightarrow> Inl (KeyError k) | Some r \<Rightarrow> Inr r)"

section \<open>Eligibility\<close>

definition evaluating_for_https :: "(string \<rightharpoonup> domain_rec) \<Rightarrow> string \<Rightarrow> error + bool" where
  "evaluating_for_https dd domain =
     andE (bindE (lookup_domain dd domain) (\<lambda>r. Inr (inspect r \<noteq> None)))
          (bindE (lookup_domain dd domain) (\<lambda>r.
             bindE (subrecord (inspect r) ''inspect'') (\<lambda>i. item_is i ''Live'' ''True'')))"

definition evaluating_for_analytics :: "(string \<rightharpoonup> domain_rec) \<Rightarrow> string \<Rightarrow> error + bool" where
  "evaluating_for_analytics dd domain =
     andE (bindE (lookup_domain dd domain) (\<lambda>r. Inr (inspect r \<noteq> None)))
    (andE (bindE (lookup_domain dd domain) (\<lambda>r. Inr (analytics r \<noteq> None)))
    (andE (bindE (lookup_domain dd domain) (\<lambda>r.
             bindE (subrecord (inspect r) ''inspect'') (\<lambda>i. item_is i ''Live'' ''True'')))
    (andE (bindE (lookup_domain dd domain) (\<lambda>r.
             bindE (subrecord (inspect r) ''inspect'') (\<lambda>i. item_is i ''Redirect'' ''False'')))
          (bindE (lookup_domain dd domain) (\<lambda>r. Inr (branch r = ''executive''))))))"

section \<open>The classifier\<close>

text \<open>
  \<^verbatim>\<open>https_row_for\<close> computes four scores one after the other. Each of its four blocks is a
  definition here, in the order of the script; \<open>https_row_for\<close> below runs them in that order.
\<close>

text \<open>Lines 286 to 300: is HTTPS there?\<close>

definition uses_https :: "dict \<Rightarrow> error + int" where
  "uses_https i =
     bindE (item_is i ''Downgrades HTTPS'' ''True'') (\<lambda>c.
       if c then Inr 0
       else bindE (item_is i ''Valid HTTPS'' ''True'') (\<lambda>c.
         if c then Inr 2
         else bindE (item_is i ''HTTPS Bad Chain'' ''True'') (\<lambda>c.
           if c then Inr 1 else Inr (- 1))))"

text \<open>Lines 303 to 339: is HTTPS enforced?\<close>

definition enforces_https :: "dict \<Rightarrow> int \<Rightarrow> error + int" where
  "enforces_https i https =
     (if https \<le> 0 then Inr 0
      else
        bindE (andE (item_is i ''Strictly Forces HTTPS'' ''True'')
                 (orE (item_is i ''Defaults to HTTPS'' ''True'')
                      (item_is i ''Redirect'' ''True''))) (\<lambda>c.
          if c then Inr 3
          else bindE (andE (item_is i ''Strictly Forces HTTPS'' ''False'')
                           (item_is i ''Defaults to HTTPS'' ''True'')) (\<lambda>c.
            if c then Inr 2 else Inr 1)))"

text \<open>
  Lines 342 to 391: HSTS. The max-age is parsed first, before the score is looked at:
  an empty cell is \<^verbatim>\<open>None\<close>, anything else goes through \<^verbatim>\<open>int\<close>. The comparison
  \<^verbatim>\<open>hsts_age < 10886400\<close> raises TypeError in Python 3 when \<^verbatim>\<open>hsts_age\<close> is \<^verbatim>\<open>None\<close>.
\<close>

definition parse_hsts_age :: "dict \<Rightarrow> error + int option" where
  "parse_hsts_age i =
     bindE (getitem i ''HSTS Max Age'') (\<lambda>s.
       if s \<noteq> [] then bindE (int_of_str s) (\<lambda>n. Inr (Some n)) else Inr None)"

definition less_than :: "int option \<Rightarrow> int \<Rightarrow> error + bool" where
  "less_than a b = (case a of None \<Rightarrow> Inl TypeError | Some n \<Rightarrow> Inr (n < b))"

definition hsts_score :: "dict \<Rightarrow> int \<Rightarrow> int option \<Rightarrow> error + int" where
  "hsts_score i https hsts_age =
     (if https \<le> 0 then Inr (- 1)
      else
        bindE (item_is i ''HSTS'' ''False'') (\<lambda>c.
          if c then Inr 0
          else bindE (item_is i ''HSTS Preload Ready'' ''True'') (\<lambda>c.
            if c then Inr 3
            else bindE (less_than hsts_age 10886400) (\<lambda>c.
              if c then Inr 0
              else bindE (item_is i ''HSTS All Subdomains'' ''True'') (\<lambda>c.
                if c then Inr 2 else Inr 1)))))"

definition hsts_block :: "dict \<Rightarrow> int \<Rightarrow> error + (int \<times> int option)" where
  "hsts_block i https =
     bindE (parse_hsts_age i) (\<lambda>hsts_age.
       bindE (hsts_score i https hsts_age) (\<lambda>hsts. Inr (hsts, hsts_age)))"

text \<open>Lines 394 to 441: the SSL Labs grade and the TLS details.\<close>

definition grade_table :: "(string \<times> int) list" where
  "grade_table = [(''F'', 0), (''T'', 1), (''C'', 2), (''B'', 3), (''A-'', 4), (''A'', 5), (''A+'', 6)]"

definition grade_of :: "string \<Rightarrow> error + int" where
  "grade_of g = (case map_of grade_table g of None \<Rightarrow> Inl (KeyError g) | Some n \<Rightarrow> Inr n)"

record tls_details =
  d_grade :: int
  d_fs :: "int option"
  d_sig :: "string option"
  d_rc4 :: "bool option"
  d_ssl3 :: "bool option"
  d_tls12 :: "bool option"

definition not_applicable :: tls_details where
  "not_applicable = \<lparr>d_grade = - 1, d_fs = None, d_sig = None, d_rc4 = None, d_ssl3 = None,
     d_tls12 = None\<rparr>"

definition grade_block :: "dict option \<Rightarrow> int \<Rightarrow> error + tls_details" where
  "grade_block tls_record https =
     (if https \<le> 0 then Inr not_applicable
      else case tls_record of
        None \<Rightarrow> Inr not_applicable
      | Some t \<Rightarrow>
          bindE (bindE (getitem t ''Grade'') grade_of) (\<lambda>grade.
          bindE (bindE (getitem t ''Forward Secrecy'') int_of_str) (\<lambda>fs.
          bindE (getitem t ''Signature Algorithm'') (\<lambda>sig.
          bindE (getitem t ''RC4'') (\<lambda>rc4.
          bindE (getitem t ''SSLv3'') (\<lambda>ssl3.
          bindE (getitem t ''TLSv1.2'') (\<lambda>tls12.
            Inr \<lparr>d_grade = grade, d_fs = Some fs, d_sig = Some sig,
                 d_rc4 = Some (boolean_for rc4), d_ssl3 = Some (boolean_for ssl3),
                 d_tls12 = Some (boolean_for tls12)\<rparr>)))))))"

definition https_row_for :: "(string \<rightharpoonup> domain_rec) \<Rightarrow> string \<Rightarrow> error + https_row" where
  "https_row_for dd domain =
     bindE (lookup_domain dd domain) (\<lambda>r.
     bindE (subrecord (inspect r) ''inspect'') (\<lambda>i.
     bindE (getitem i ''Canonical'') (\<lambda>canonical.
     bindE (uses_https i) (\<lambda>https.
     bindE (enforces_https i https) (\<lambda>behavior.
     bindE (hsts_block i https) (\<lambda>(hsts, hsts_age).
     bindE (grade_block (tls r) https) (\<lambda>d.
       Inr \<lparr>h_Domain = domain, h_Canonical = canonical, h_Agency = agency r,
            h_https = https, h_https_forced = behavior, h_hsts = hsts, h_hsts_age = hsts_age,
            h_grade = d_grade d, h_fs = d_fs d, h_sig = d_sig d, h_rc4 = d_rc4 d,
            h_ssl3 = d_ssl3 d, h_tls12 = d_tls12 d\<rparr>)))))))"

definition analytics_row_for :: "(string \<rightharpoonup> domain_rec) \<Rightarrow> string \<Rightarrow> error + analytics_row" where
  "analytics_row_for dd domain =
     bindE (lookup_domain dd domain) (\<lambda>r.
     bindE (subrecord (analytics r) ''analytics'') (\<lambda>a.
     bindE (subrecord (inspect r) ''inspect'') (\<lambda>i.
     bindE (getitem i ''Canonical'') (\<lambda>canonical.
     bindE (getitem a ''Participates in Analytics'') (\<lambda>p.
       Inr \<lparr>a_Domain = domain, a_Canonical = canonical, a_Agency = agency r,
            a_dap = boolean_nice p\<rparr>)))))"

section \<open>Loading\<close>

text \<open>
  Each input file is the list of rows that \<^verbatim>\<open>csv.reader\<close> yields, a row being a list of
  cells. The four loops of \<^verbatim>\<open>load_data\<close> are folds of the four row functions below.
\<close>

type_synonym csv = "string list list"

text \<open>Lines 87 to 117: one row of domains.csv.\<close>

definition load_domains_row :: "string list \<Rightarrow> state \<Rightarrow> error + state" where
  "load_domains_row row st =
     bindE (index row 0) (\<lambda>r0.
       if startswith (lower r0) ''domain'' then Inr st
       else
         bindE (index row 1) (\<lambda>domain_type.
         bindE (index row 2) (\<lambda>agency_name.
           let domain = lower r0; br = branch_for agency_name in
           if domain_type \<noteq> ''Federal Agency'' then Inr st
           else if br = ''non-federal'' then Inr st
           else
             let st1 = (if domain \<notin> set (domains st)
                        then st\<lparr>domains := domains st @ [domain]\<rparr> else st);
                 st2 = (if agency_name \<notin> set (agencies st1)
                        then st1\<lparr>agencies := agencies st1 @ [agency_name],
                                 agency_data := (agency_data st1)(agency_name \<mapsto> [])\<rparr>
                        else st1)
             in case agency_data st2 agency_name of
                  None \<Rightarrow> Inl (KeyError agency_name)
                | Some members \<Rightarrow>
                    Inr (st2\<lparr>agency_data := (agency_data st2)(agency_name \<mapsto> members @ [domain]),
                             domain_data := (domain_data st2)(domain \<mapsto>
                               \<lparr>branch = br, agency = agency_name, inspect = None, tls = None,
                                analytics = None\<rparr>)\<rparr>))))"

text \<open>\<^verbatim>\<open>for i, cell in enumerate(row): dict_row[headers[i]] = cell\<close>\<close>

definition build_dict :: "string list \<Rightarrow> string list \<Rightarrow> error + dict" where
  "build_dict headers row =
     foldE (\<lambda>(i, cell) dict_row. bindE (index headers i) (\<lambda>h. Inr (AList.update h cell dict_row)))
       (enumerate 0 row) []"

text \<open>Lines 123 to 138: one row of inspect.csv. The loop carries \<^verbatim>\<open>headers\<close>.\<close>

definition load_inspect_row :: "string list \<Rightarrow> string list \<times> state \<Rightarrow> error + string list \<times> state" where
  "load_inspect_row row hs =
     (case hs of (headers, st) \<Rightarrow>
        bindE (index row 0) (\<lambda>r0.
          if lower r0 = ''domain'' then Inr (row, st)
          else
            let domain = lower r0 in
            case domain_data st domain of
              None \<Rightarrow> Inr (headers, st)
            | Some r \<Rightarrow>
                bindE (build_dict headers row) (\<lambda>dict_row.
                  Inr (headers, st\<lparr>domain_data := (domain_data st)(domain \<mapsto>
                                       r\<lparr>inspect := Some dict_row\<rparr>)\<rparr>))))"

text \<open>Lines 140 to 157: one row of tls.csv. A later row of a domain replaces an earlier one.\<close>

definition load_tls_row :: "string list \<Rightarrow> string list \<times> state \<Rightarrow> error + string list \<times> state" where
  "load_tls_row row hs =
     (case hs of (headers, st) \<Rightarrow>
        bindE (index row 0) (\<lambda>r0.
          if lower r0 = ''domain'' then Inr (row, st)
          else
            let domain = lower r0 in
            case domain_data st domain of
              None \<Rightarrow> Inr (headers, st)
            | Some r \<Rightarrow>
                bindE (build_dict headers row) (\<lambda>dict_row.
                  Inr (headers, st\<lparr>domain_data := (domain_data st)(domain \<mapsto>
                                       r\<lparr>tls := Some dict_row\<rparr>)\<rparr>))))"

text \<open>
  Lines 160 to 182: one row of analytics.csv. \<^verbatim>\<open>not domain_data[domain].get('inspect')\<close> holds
  when the key is missing and when the dict is empty.
\<close>

definition load_analytics_row :: "string list \<Rightarrow> string list \<times> state \<Rightarrow> error + string list \<times> state" where
  "load_analytics_row row hs =
     (case hs of (headers, st) \<Rightarrow>
        bindE (index row 0) (\<lambda>r0.
          if lower r0 = ''domain'' then Inr (row, st)
          else
            let domain = lower r0 in
            case domain_data st domain of
              None \<Rightarrow> Inr (headers, st)
            | Some r \<Rightarrow>
                if inspect r = None \<or> inspect r = Some [] then Inr (headers, st)
                else
                  bindE (build_dict headers row) (\<lambda>dict_row.
                    Inr (headers, st\<lparr>domain_data := (domain_data st)(domain \<mapsto>
                                         r\<lparr>analytics := Some dict_row\<rparr>)\<rparr>))))"

definition sort_seen :: "state \<Rightarrow> state" where
  "sort_seen st = st\<lparr>domains := sort (domains st), agencies := sort (agencies st)\<rparr>"

definition load_data :: "csv \<Rightarrow> csv \<Rightarrow> csv \<Rightarrow> csv \<Rightarrow> state \<Rightarrow> error + state" where
  "load_data domains_csv inspect_csv tls_csv analytics_csv st =
     bindE (foldE load_domains_row domains_csv st) (\<lambda>st.
     bindE (foldE load_inspect_row inspect_csv ([], sort_seen st)) (\<lambda>(headers, st).
     bindE (foldE load_tls_row tls_csv ([], st)) (\<lambda>(headers, st).
     bindE (foldE load_analytics_row analytics_csv ([], st)) (\<lambda>(headers, st). Inr st))))"

section \<open>Aggregation\<close>

text \<open>Lines 188 to 194: the body of the loop over \<^verbatim>\<open>domains\<close>.\<close>

definition process_domain :: "string \<Rightarrow> state \<Rightarrow> error + state" where
  "process_domain domain st =
     bindE (bindE (evaluating_for_https (domain_data st) domain) (\<lambda>c.
              if c then bindE (https_row_for (domain_data st) domain) (\<lambda>row.
                          Inr (st\<lparr>https_domains := https_domains st @ [row]\<rparr>))
              else Inr st)) (\<lambda>st.
     bindE (evaluating_for_analytics (domain_data st) domain) (\<lambda>c.
              if c then bindE (analytics_row_for (domain_data st) domain) (\<lambda>row.
                          Inr (st\<lparr>analytics_domains := analytics_domains st @ [row]\<rparr>))
              else Inr st))"

text \<open>
  Lines 199 to 242: the counters of one agency, \<^verbatim>\<open>https_total\<close>, the four entries of the
  local dict \<^verbatim>\<open>https_stats\<close>, \<^verbatim>\<open>analytics_total\<close> and the entry of \<^verbatim>\<open>analytics_stats\<close>, and
  the body of the loop over the agency's domains.
\<close>

record counters =
  https_total :: int
  n_https :: int
  n_https_forced :: int
  n_hsts :: int
  n_grade :: int
  analytics_total :: int
  n_dap :: int

definition zero_counters :: counters where
  "zero_counters = \<lparr>https_total = 0, n_https = 0, n_https_forced = 0, n_hsts = 0, n_grade = 0,
     analytics_total = 0, n_dap = 0\<rparr>"

definition count_https :: "https_row \<Rightarrow> counters \<Rightarrow> counters" where
  "count_https row cs =
     (let cs = cs\<lparr>https_total := https_total cs + 1\<rparr>;
          cs = (if h_https row \<ge> 1 then cs\<lparr>n_https := n_https cs + 1\<rparr> else cs);
          cs = (if h_https_forced row \<ge> 2 then cs\<lparr>n_https_forced := n_https_forced cs + 1\<rparr> else cs);
          cs = (if h_hsts row \<ge> 1 then cs\<lparr>n_hsts := n_hsts cs + 1\<rparr> else cs);
          cs = (if h_grade row \<ge> 4 then cs\<lparr>n_grade := n_grade cs + 1\<rparr> else cs)
      in cs)"

definition count_analytics :: "analytics_row \<Rightarrow> counters \<Rightarrow> counters" where
  "count_analytics row cs =
     (let cs = cs\<lparr>analytics_total := analytics_total cs + 1\<rparr>;
          cs = (if a_dap row \<ge> 1 then cs\<lparr>n_dap := n_dap cs + 1\<rparr> else cs)
      in cs)"

definition count_domain :: "(string \<rightharpoonup> domain_rec) \<Rightarrow> string \<Rightarrow> counters \<Rightarrow> error + counters" where
  "count_domain dd domain cs =
     bindE (bindE (evaluating_for_https dd domain) (\<lambda>c.
              if c then bindE (https_row_for dd domain) (\<lambda>row. Inr (count_https row cs))
              else Inr cs)) (\<lambda>cs.
     bindE (evaluating_for_analytics dd domain) (\<lambda>c.
              if c then bindE (analytics_row_for dd domain) (\<lambda>row. Inr (count_analytics row cs))
              else Inr cs))"

text \<open>Lines 244 to 259: the rows appended for one agency.\<close>

definition emit_https_agency :: "string \<Rightarrow> counters \<Rightarrow> state \<Rightarrow> error + state" where
  "emit_https_agency agency_name cs st =
     (if https_total cs > 0 then
        bindE (percent (n_https cs) (https_total cs)) (\<lambda>p1.
        bindE (percent (n_https_forced cs) (https_total cs)) (\<lambda>p2.
        bindE (percent (n_hsts cs) (https_total cs)) (\<lambda>p3.
        bindE (percent (n_grade cs) (https_total cs)) (\<lambda>p4.
          Inr (st\<lparr>https_agencies := https_agencies st @
                 [\<lparr>ha_Agency = agency_name, ha_Number_of_Domains = https_total cs,
                   ha_https = p1, ha_https_forced = p2, ha_hsts = p3,
                   ha_grade_agencies = p4\<rparr>]\<rparr>)))))
      else Inr st)"

definition emit_analytics_agency :: "string \<Rightarrow> counters \<Rightarrow> state \<Rightarrow> error + state" where
  "emit_analytics_agency agency_name cs st =
     (if analytics_total cs > 0 then
        bindE (percent (n_dap cs) (analytics_total cs)) (\<lambda>p.
          Inr (st\<lparr>analytics_agencies := analytics_agencies st @
                 [\<lparr>aa_Agency = agency_name, aa_Number_of_Domains = analytics_total cs,
                   aa_dap = p\<rparr>]\<rparr>))
      else Inr st)"

definition members_of :: "(string \<rightharpoonup> string list) \<Rightarrow> string \<Rightarrow> error + string list" where
  "members_of ad agency_name =
     (case ad agency_name of None \<Rightarrow> Inl (KeyError agency_name) | Some ds \<Rightarrow> Inr ds)"

definition process_agency :: "string \<Rightarrow> state \<Rightarrow> error + state" where
  "process_agency agency_name st =
     bindE (members_of (agency_data st) agency_name) (\<lambda>members.
     bindE (foldE (count_domain (domain_data st)) members zero_counters) (\<lambda>cs.
     bindE (emit_https_agency agency_name cs st) (\<lambda>st.
       emit_analytics_agency agency_name cs st)))"

definition process_domains :: "state \<Rightarrow> error + state" where
  "process_domains st =
     bindE (foldE process_domain (domains st) st) (\<lambda>st.
       foldE process_agency (agencies st) st)"

section \<open>Summaries\<close>

text \<open>
  \<^verbatim>\<open>process_stats\<close> computes the table of the HTTPS chart (lines 465 to 483) and then the
  table of the analytics chart (lines 485 to 497); each counting loop is a fold.
\<close>

definition table_of :: "int \<Rightarrow> cell list list" where
  "table_of pct = [[S ''status'', S ''value''], [S ''active'', I pct], [S ''inactive'', I (100 - pct)]]"

definition https_enabled :: "https_row list \<Rightarrow> int" where
  "https_enabled rows =
     fold (\<lambda>row enabled. if h_https row \<ge> 1 \<and> h_https_forced row \<ge> 1 then enabled + 1 else enabled)
       rows 0"

definition analytics_enabled :: "analytics_row list \<Rightarrow> int" where
  "analytics_enabled rows =
     fold (\<lambda>row enabled. if a_dap row \<ge> 1 then enabled + 1 else enabled) rows 0"

definition https_summary :: "https_row list \<Rightarrow> error + cell list list" where
  "https_summary rows =
     (let total = int (length rows); enabled = https_enabled rows
      in bindE (percent enabled total) (\<lambda>pct. Inr (table_of pct)))"

definition analytics_summary :: "analytics_row list \<Rightarrow> error + cell list list" where
  "analytics_summary rows =
     (let total = int (length rows); enabled = analytics_enabled rows
      in bindE (percent enabled total) (\<lambda>pct. Inr (table_of pct)))"

definition process_stats :: "state \<Rightarrow> error + state" where
  "process_stats st =
     bindE (https_summary (https_domains st)) (\<lambda>t.
       let st = st\<lparr>https_stats := t\<rparr> in
       bindE (analytics_summary (analytics_domains st)) (\<lambda>t.
         Inr (st\<lparr>analytics_stats := t\<rparr>)))"

text \<open>The main task flow, up to the writing of the files.\<close>

definition run :: "csv \<Rightarrow> csv \<Rightarrow> csv \<Rightarrow> csv \<Rightarrow> error + state" where
  "run domains_csv inspect_csv tls_csv analytics_csv =
     bindE (load_data domains_csv inspect_csv tls_csv analytics_csv initial) (\<lambda>st.
     bindE (process_domains st) process_stats)"

section \<open>The ladder of the specification\<close>

text \<open>
  The HSTS score as the specification words it, for a domain whose max-age parses to \<open>n\<close>:
  presence, then the \<open>HSTS\<close> cell, then preload readiness, then the 18 weeks, then the
  subdomains.
\<close>

definition hsts_ladder :: "int \<Rightarrow> string \<Rightarrow> string \<Rightarrow> int \<Rightarrow> string \<Rightarrow> int" where
  "hsts_ladder https h p n a =
     (if https \<le> 0 then - 1
      else if h = ''False'' then 0
      else if p = ''True'' then 3
      else if n < 10886400 then 0
      else if a = ''True'' then 2
      else 1)"

section \<open>The rollup of the specification\<close>

text \<open>
  The row the specification gives an agency whose HTTPS-eligible member occurrences have the
  rows \<open>hs\<close>: the number of occurrences, and the percentages of those with presence score at
  least 1, enforcement score at least 2, HSTS score at least 1 and grade score at least 4. The
  analytics row is built from the rows \<open>as\<close> of the analytics-eligible occurrences.
\<close>

definition https_rollup_row :: "string \<Rightarrow> https_row list \<Rightarrow> https_agency_row \<Rightarrow> bool" where
  "https_rollup_row a hs row \<longleftrightarrow>
     ha_Agency row = a \<and> ha_Number_of_Domains row = int (length hs) \<and>
     percent (int (length (filter (\<lambda>r. 1 \<le> h_https r) hs))) (int (length hs)) = Inr (ha_https row) \<and>
     percent (int (length (filter (\<lambda>r. 2 \<le> h_https_forced r) hs))) (int (length hs)) =
       Inr (ha_https_forced row) \<and>
     percent (int (length (filter (\<lambda>r. 1 \<le> h_hsts r) hs))) (int (length hs)) = Inr (ha_hsts row) \<and>
     percent (int (length (filter (\<lambda>r. 4 \<le> h_grade r) hs))) (int (length hs)) =
       Inr (ha_grade_agencies row)"

definition analytics_rollup_row :: "string \<Rightarrow> analytics_row list \<Rightarrow> analytics_agency_row \<Rightarrow> bool" where
  "analytics_rollup_row a as row \<longleftrightarrow>
     aa_Agency row = a \<and> aa_Number_of_Domains row = int (length as) \<and>
     percent (int (length (filter (\<lambda>r. 1 \<le> a_dap r) as))) (int (length as)) = Inr (aa_dap row)"

section \<open>Example data\<close>

text \<open>
  One domain as the loader leaves it: live, valid HTTPS, strictly enforced, an HSTS header
  with a max-age below 18 weeks, and an A- from SSL Labs. The variants change one cell each.
\<close>

definition example_inspect :: dict where
  "example_inspect =
     [(''Domain'', ''example.gov''), (''Canonical'', ''https://example.gov''),
      (''Live'', ''True''), (''Redirect'', ''False''),
      (''Valid HTTPS'', ''True''), (''HTTPS Bad Chain'', ''False''),
      (''Downgrades HTTPS'', ''False''), (''Strictly Forces HTTPS'', ''True''),
      (''Defaults to HTTPS'', ''True''), (''HSTS'', ''True''),
      (''HSTS Max Age'', ''10000000''), (''HSTS Preload Ready'', ''False''),
      (''HSTS All Subdomains'', ''True'')]"

definition example_tls :: dict where
  "example_tls =
     [(''Domain'', ''example.gov''), (''Grade'', ''A-''), (''Forward Secrecy'', ''2''),
      (''Signature Algorithm'', ''SHA256withRSA''), (''RC4'', ''False''),
      (''SSLv3'', ''False''), (''TLSv1.2'', ''True'')]"

definition example_analytics :: dict where
  "example_analytics = [(''Domain'', ''example.gov''), (''Participates in Analytics'', ''True'')]"

definition example_rec :: "dict \<Rightarrow> dict \<Rightarrow> domain_rec" where
  "example_rec i t = \<lparr>branch = ''executive'', agency = ''Department of Examples'',
     inspect = Some i, tls = Some t, analytics = Some example_analytics\<rparr>"

definition example_data :: "dict \<Rightarrow> dict \<Rightarrow> (string \<rightharpoonup> domain_rec)" where
  "example_data i t = [''example.gov'' \<mapsto> example_rec i t]"

definition example_row :: https_row where
  "example_row = \<lparr>h_Domain = ''example.gov'', h_Canonical = ''https://example.gov'',
     h_Agency = ''Department of Examples'', h_https = 2, h_https_forced = 3, h_hsts = 0,
     h_hsts_age = Some 10000000, h_grade = 4, h_fs = Some 2, h_sig = Some ''SHA256withRSA'',
     h_rc4 = Some False, h_ssl3 = Some False, h_tls12 = Some True\<rparr>"

text \<open>The max-age is not a number.\<close>

definition malformed_inspect :: dict where
  "malformed_inspect = AList.update ''HSTS Max Age'' ''abc'' example_inspect"

text \<open>The max-age is empty and the domain is preload ready.\<close>

definition preload_inspect :: dict where
  "preload_inspect =
     AList.update ''HSTS Preload Ready'' ''True'' (AList.update ''HSTS Max Age'' [] example_inspect)"

text \<open>HTTPS is downgraded, and the TLS scan reports a grade that is not in the table.\<close>

definition downgraded_inspect :: dict where
  "downgraded_inspect = AList.update ''Downgrades HTTPS'' ''True'' example_inspect"

definition unknown_grade_tls :: dict where
  "unknown_grade_tls = AList.update ''Grade'' ''Z'' example_tls"

definition downgraded_row :: https_row where
  "downgraded_row = \<lparr>h_Domain = ''example.gov'', h_Canonical = ''https://example.gov'',
     h_Agency = ''Department of Examples'', h_https = 0, h_https_forced = 0, h_hsts = - 1,
     h_hsts_age = Some 10000000, h_grade = - 1, h_fs = None, h_sig = None,
     h_rc4 = None, h_ssl3 = None, h_tls12 = None\<rparr>"

text \<open>HTTPS is downgraded and the max-age is not a number.\<close>

definition downgraded_malformed_inspect :: dict where
  "downgraded_malformed_inspect = AList.update ''HSTS Max Age'' ''abc'' downgraded_inspect"

text \<open>The max-age is empty, and the domain is not preload ready.\<close>

definition empty_age_inspect :: dict where
  "empty_age_inspect = AList.update ''HSTS Max Age'' [] example_inspect"

text \<open>The registry after loading the example domain alone.\<close>

definition example_state :: "dict \<Rightarrow> dict \<Rightarrow> state" where
  "example_state i t = initial\<lparr>domain_data := example_data i t,
     agency_data := [''Department of Examples'' \<mapsto> [''example.gov'']],
     domains := [''example.gov''], agencies := [''Department of Examples'']\<rparr>"

text \<open>The example as input files: a header row and one data row each.\<close>

definition csv_of :: "dict \<Rightarrow> csv" where
  "csv_of d = [map fst d, map snd d]"

definition example_domains_csv :: csv where
  "example_domains_csv =
     [[''Domain Name'', ''Domain Type'', ''Agency''],
      [''EXAMPLE.GOV'', ''Federal Agency'', ''Department of Examples'']]"

definition sub_records ::
  "error + state \<Rightarrow> string \<Rightarrow> error + (dict option \<times> dict option \<times> dict option) option" where
  "sub_records res d =
     bindE res (\<lambda>st. Inr (map_option (\<lambda>r. (inspect r, tls r, analytics r)) (domain_data st d)))"

text \<open>The invariant of loading: an analytics record is attached only next to an inspect record.\<close>

definition anchored :: "state \<Rightarrow> bool" where
  "anchored st \<longleftrightarrow> (\<forall>d r. domain_data st d = Some r \<longrightarrow> inspect r = None \<longrightarrow> analytics r = None)"

text \<open>The registry with the example domain and no scan record yet.\<close>

definition bare_rec :: domain_rec where
  "bare_rec = \<lparr>branch = ''executive'', agency = ''Department of Examples'', inspect = None,
     tls = None, analytics = None\<rparr>"

definition bare_state :: state where
  "bare_state = initial\<lparr>domain_data := [''example.gov'' \<mapsto> bare_rec]\<rparr>"

text \<open>
  A registry of three domains and two agencies: the example domain, a second domain of the
  same agency whose HTTPS is downgraded and which does not participate in analytics, and a
  domain of a court that was never inspected.
\<close>

definition other_analytics :: dict where
  "other_analytics = [(''Domain'', ''other.gov''), (''Participates in Analytics'', ''False'')]"

definition other_rec :: domain_rec where
  "other_rec = \<lparr>branch = ''executive'', agency = ''Department of Examples'',
     inspect = Some downgraded_inspect, tls = Some example_tls, analytics = Some other_analytics\<rparr>"

definition court_rec :: domain_rec where
  "court_rec = \<lparr>branch = ''judicial'', agency = ''Example Court'', inspect = None, tls = None,
     analytics = None\<rparr>"

definition other_row :: https_row where
  "other_row = downgraded_row\<lparr>h_Domain := ''other.gov''\<rparr>"

definition example_analytics_row :: "string \<Rightarrow> int \<Rightarrow> analytics_row" where
  "example_analytics_row d p = \<lparr>a_Domain = d, a_Canonical = ''https://example.gov'',
     a_Agency = ''Department of Examples'', a_dap = p\<rparr>"

definition rollup_state :: state where
  "rollup_state = initial\<lparr>
     domain_data := [''example.gov'' \<mapsto> example_rec example_inspect example_tls,
       ''other.gov'' \<mapsto> other_rec, ''court.gov'' \<mapsto> court_rec],
     agency_data := [''Department of Examples'' \<mapsto> [''example.gov'', ''other.gov''],
       ''Example Court'' \<mapsto> [''court.gov'']],
     domains := [''court.gov'', ''example.gov'', ''other.gov''],
     agencies := [''Department of Examples'', ''Example Court'']\<rparr>"

section \<open>Basic facts\<close>

lemma bindE_Inr [simp]: "bindE (Inr x) f = f x"
  by (simp add: bindE_def)

lemma bindE_Inl [simp]: "bindE (Inl e) f = Inl e"
  by (simp add: bindE_def)

lemma bindE_eq_Inr: "bindE m f = Inr y \<longleftrightarrow> (\<exists>x. m = Inr x \<and> f x = Inr y)"
  by (cases m) simp_all

lemma andE_eq_Inr_True: "andE a b = Inr True \<longleftrightarrow> a = Inr True \<and> b = Inr True"
  by (cases a) (auto simp: andE_def)

lemma getitem_eq_Inr: "getitem d k = Inr v \<longleftrightarrow> map_of d k = Some v"
  by (simp add: getitem_def split: option.splits)

lemma item_is_eq_Inr_True: "item_is d k v = Inr True \<longleftrightarrow> map_of d k = Some v"
  by (auto simp: item_is_def bindE_eq_Inr getitem_eq_Inr)

lemma lookup_domain_eq_Inr: "lookup_domain dd d = Inr r \<longleftrightarrow> dd d = Some r"
  by (simp add: lookup_domain_def split: option.splits)

lemma subrecord_eq_Inr: "subrecord x k = Inr i \<longleftrightarrow> x = Some i"
  by (simp add: subrecord_def split: option.splits)

lemma evaluating_for_https_iff:
  "evaluating_for_https dd d = Inr True \<longleftrightarrow>
     (\<exists>r i. dd d = Some r \<and> inspect r = Some i \<and> map_of i ''Live'' = Some ''True'')"
  unfolding evaluating_for_https_def
  by (auto simp: andE_eq_Inr_True bindE_eq_Inr lookup_domain_eq_Inr subrecord_eq_Inr
      item_is_eq_Inr_True)

lemma evaluating_for_analytics_iff:
  "evaluating_for_analytics dd d = Inr True \<longleftrightarrow>
     (\<exists>r i a. dd d = Some r \<and> inspect r = Some i \<and> analytics r = Some a \<and>
        map_of i ''Live'' = Some ''True'' \<and> map_of i ''Redirect'' = Some ''False'' \<and>
        branch r = ''executive'')"
  unfolding evaluating_for_analytics_def
  by (auto simp: andE_eq_Inr_True bindE_eq_Inr lookup_domain_eq_Inr subrecord_eq_Inr
      item_is_eq_Inr_True)

lemma no_inspect_not_evaluated:
  assumes "dd d = Some r" "inspect r = None"
  shows "evaluating_for_https dd d = Inr False" "evaluating_for_analytics dd d = Inr False"
  using assms
  by (simp_all add: evaluating_for_https_def evaluating_for_analytics_def andE_def
      lookup_domain_def)

lemma uses_https_range: "uses_https i = Inr h \<Longrightarrow> h \<in> {- 1, 0, 1, 2}"
  by (auto simp: uses_https_def bindE_eq_Inr split: if_splits)

lemma enforces_https_range:
  "enforces_https i h = Inr b \<Longrightarrow> b \<in> {0, 1, 2, 3} \<and> (h \<le> 0 \<longrightarrow> b = 0)"
  by (auto simp: enforces_https_def bindE_eq_Inr split: if_splits)

lemma hsts_score_range:
  "hsts_score i h a = Inr s \<Longrightarrow> s \<in> {- 1, 0, 1, 2, 3} \<and> (h \<le> 0 \<longrightarrow> s = - 1)"
  by (auto simp: hsts_score_def bindE_eq_Inr split: if_splits)

lemma hsts_block_range:
  "hsts_block i h = Inr (s, a) \<Longrightarrow> s \<in> {- 1, 0, 1, 2, 3} \<and> (h \<le> 0 \<longrightarrow> s = - 1)"
  using hsts_score_range by (auto simp: hsts_block_def bindE_eq_Inr)

lemma grade_of_range: "grade_of g = Inr n \<Longrightarrow> n \<in> {0, 1, 2, 3, 4, 5, 6}"
  by (auto simp: grade_of_def grade_table_def split: if_splits option.splits)

lemma grade_block_range:
  "grade_block t h = Inr d \<Longrightarrow> d_grade d \<in> {- 1, 0, 1, 2, 3, 4, 5, 6}"
  by (auto simp: grade_block_def not_applicable_def bindE_eq_Inr
      split: if_splits option.splits dest!: grade_of_range)

text \<open>A row that was produced went through the four blocks.\<close>

lemma https_row_for_blocks:
  assumes "https_row_for dd domain = Inr row"
  obtains r i d where "dd domain = Some r" "inspect r = Some i"
    "map_of i ''Canonical'' = Some (h_Canonical row)"
    "uses_https i = Inr (h_https row)"
    "enforces_https i (h_https row) = Inr (h_https_forced row)"
    "hsts_block i (h_https row) = Inr (h_hsts row, h_hsts_age row)"
    "grade_block (tls r) (h_https row) = Inr d" "h_grade row = d_grade d"
  using assms unfolding https_row_for_def
  by (auto simp: bindE_eq_Inr lookup_domain_eq_Inr subrecord_eq_Inr getitem_eq_Inr)

lemmas eval_classifier =
  https_row_for_def example_data_def example_rec_def example_inspect_def example_tls_def
  example_analytics_def example_row_def lookup_domain_def subrecord_def getitem_def
  uses_https_def item_is_def enforces_https_def andE_def orE_def hsts_block_def
  parse_hsts_age_def int_of_str_def py_int_def strip_def is_space_def parse_unsigned_def
  is_digit_def digit_value_def hsts_score_def less_than_def grade_block_def grade_of_def
  grade_table_def boolean_for_def not_applicable_def malformed_inspect_def preload_inspect_def
  downgraded_inspect_def unknown_grade_tls_def downgraded_row_def

lemma example_row_for:
  "https_row_for (example_data example_inspect example_tls) ''example.gov'' = Inr example_row"
  by (simp add: eval_classifier)

lemma int_whitespace:
  "py_int [CHR 0x1C, CHR ''1'', CHR ''2''] = None"
  "py_int [CHR 0xA0, CHR ''1'', CHR ''2'', CHR 0x85] = Some 12"
  "py_int '' +1_000 '' = Some 1000"
  "py_int ''1__0'' = None"
  by code_simp+

lemma parse_hsts_age_eval:
  assumes "map_of i ''HSTS Max Age'' = Some s"
  shows "parse_hsts_age i =
    (if s = [] then Inr None
     else case py_int s of None \<Rightarrow> Inl ValueError | Some n \<Rightarrow> Inr (Some n))"
  using assms
  by (simp add: parse_hsts_age_def getitem_def int_of_str_def split: option.splits)

lemma hsts_score_eval:
  assumes "map_of i ''HSTS'' = Some h" "map_of i ''HSTS Preload Ready'' = Some p"
    "map_of i ''HSTS All Subdomains'' = Some a"
  shows "hsts_score i https age =
    (if https \<le> 0 then Inr (- 1)
     else if h = ''False'' then Inr 0
     else if p = ''True'' then Inr 3
     else case age of
            None \<Rightarrow> Inl TypeError
          | Some n \<Rightarrow> Inr (if n < 10886400 then 0 else if a = ''True'' then 2 else 1))"
  using assms
  by (simp add: hsts_score_def item_is_def getitem_def less_than_def split: option.splits)

lemma hsts_score_no_https: "https \<le> 0 \<Longrightarrow> hsts_score i https age = Inr (- 1)"
  by (simp add: hsts_score_def)

lemma hsts_block_ladder:
  assumes "map_of i ''HSTS'' = Some h" "map_of i ''HSTS Preload Ready'' = Some p"
    "map_of i ''HSTS All Subdomains'' = Some a" "map_of i ''HSTS Max Age'' = Some s"
    "s = [] \<and> (https \<le> 0 \<or> h = ''False'' \<or> p = ''True'') \<or> s \<noteq> [] \<and> py_int s = Some n"
  shows "hsts_block i https = Inr (hsts_ladder https h p n a, if s = [] then None else Some n)"
proof (cases "s = []")
  case True
  with assms(5) have d: "https \<le> 0 \<or> h = ''False'' \<or> p = ''True''" by simp
  have "parse_hsts_age i = Inr None"
    using parse_hsts_age_eval [OF assms(4)] True by simp
  moreover have "hsts_score i https None = Inr (hsts_ladder https h p n a)"
    using d by (simp add: hsts_score_eval [OF assms(1-3)] hsts_ladder_def) blast
  ultimately show ?thesis using True by (simp add: hsts_block_def)
next
  case False
  with assms(5) have n: "py_int s = Some n" by simp
  have "parse_hsts_age i = Inr (Some n)"
    using parse_hsts_age_eval [OF assms(4)] False n by simp
  moreover have "hsts_score i https (Some n) = Inr (hsts_ladder https h p n a)"
    by (simp add: hsts_score_eval [OF assms(1-3)] hsts_ladder_def)
  ultimately show ?thesis using False by (simp add: hsts_block_def)
qed

lemma empty_max_age_type_error:
  "https_row_for (example_data empty_age_inspect example_tls) ''example.gov'' = Inl TypeError"
  by (simp add: eval_classifier empty_age_inspect_def)

lemma hsts_block_age:
  assumes "map_of i ''HSTS Max Age'' = Some []" "hsts_block i https = Inr (hsts, age)"
  shows "age = None"
  using assms parse_hsts_age_eval [OF assms(1)]
  by (auto simp: hsts_block_def bindE_eq_Inr)

lemma hsts_block_value_error:
  assumes "map_of i ''HSTS Max Age'' = Some s" "s \<noteq> []" "py_int s = None"
  shows "hsts_block i https = Inl ValueError"
  using assms parse_hsts_age_eval [OF assms(1)]
  by (simp add: hsts_block_def)

lemma https_row_for_hsts_error:
  assumes "dd domain = Some r" "inspect r = Some i" "map_of i ''Canonical'' = Some c"
    "uses_https i = Inr u" "enforces_https i u = Inr b" "hsts_block i u = Inl e"
  shows "https_row_for dd domain = Inl e"
  using assms by (simp add: https_row_for_def lookup_domain_def subrecord_def getitem_def)








lemma branch_for_executive:
  assumes "agency_name \<notin> set [''Library of Congress'', ''The Legislative Branch (Congress)'',
      ''Government Printing Office'', ''Congressional Office of Compliance'']"
    "agency_name \<noteq> ''The Judicial Branch (Courts)''" "agency_name \<noteq> ''Non-Federal Agency''"
  shows "branch_for agency_name = ''executive''"
  using assms by (simp add: branch_for_def)

lemma load_domains_row_admits:
  assumes "branch_for a \<noteq> ''non-federal''" "\<not> startswith (lower d) ''domain''"
    "set (agencies st) \<subseteq> dom (agency_data st)"
  shows "\<exists>st'. load_domains_row [d, ''Federal Agency'', a] st = Inr st' \<and>
           domain_data st' (lower d) =
             Some \<lparr>branch = branch_for a, agency = a, inspect = None, tls = None, analytics = None\<rparr>"
proof (cases "a \<in> set (agencies st)")
  case True
  with assms(3) obtain members where "agency_data st a = Some members" by blast
  with True assms(1,2) show ?thesis
    by (simp add: load_domains_row_def index_def Let_def)
next
  case False
  with assms(1,2) show ?thesis
    by (simp add: load_domains_row_def index_def Let_def)
qed

lemma foldE_invariant:
  assumes "\<And>x s s'. P s \<Longrightarrow> f x s = Inr s' \<Longrightarrow> P s'" "P s" "foldE f xs s = Inr s'"
  shows "P s'"
  using assms(2,3)
proof (induction xs arbitrary: s)
  case Nil
  then show ?case by simp
next
  case (Cons x xs)
  from Cons.prems(2) obtain s1 where 1: "f x s = Inr s1" "foldE f xs s1 = Inr s'"
    by (auto simp: bindE_eq_Inr)
  from assms(1) [OF Cons.prems(1) 1(1)] have "P s1" .
  from Cons.IH [OF this 1(2)] show ?case .
qed

lemma anchored_initial: "anchored initial"
  by (simp add: anchored_def initial_def)

lemma anchored_load_domains_row:
  assumes "anchored st" "load_domains_row row st = Inr st'"
  shows "anchored st'"
  using assms
  by (auto simp: load_domains_row_def bindE_eq_Inr anchored_def Let_def
      split: if_splits option.splits)

lemma anchored_sort_seen: "anchored (sort_seen st) = anchored st"
  by (simp add: anchored_def sort_seen_def)

lemma anchored_load_inspect_row:
  assumes "anchored (snd hs)" "load_inspect_row row hs = Inr hs'"
  shows "anchored (snd hs')"
  using assms
  by (cases hs) (auto simp: load_inspect_row_def bindE_eq_Inr anchored_def Let_def
      split: if_splits option.splits)

lemma anchored_load_tls_row:
  assumes "anchored (snd hs)" "load_tls_row row hs = Inr hs'"
  shows "anchored (snd hs')"
  using assms
  by (cases hs) (auto simp: load_tls_row_def bindE_eq_Inr anchored_def Let_def
      split: if_splits option.splits)

lemma anchored_load_analytics_row:
  assumes "anchored (snd hs)" "load_analytics_row row hs = Inr hs'"
  shows "anchored (snd hs')"
  using assms
  by (cases hs) (auto simp: load_analytics_row_def bindE_eq_Inr anchored_def Let_def
      split: if_splits option.splits)

lemma anchored_load_data:
  assumes "anchored st" "load_data d i t a st = Inr st'"
  shows "anchored st'"
proof -
  from assms(2) obtain s1 h2 s2 h3 s3 h4 where
    1: "foldE load_domains_row d st = Inr s1" and
    2: "foldE load_inspect_row i ([], sort_seen s1) = Inr (h2, s2)" and
    3: "foldE load_tls_row t ([], s2) = Inr (h3, s3)" and
    4: "foldE load_analytics_row a ([], s3) = Inr (h4, st')"
    by (auto simp: load_data_def bindE_eq_Inr)
  have "anchored s1"
    using foldE_invariant [where P = anchored, OF anchored_load_domains_row assms(1) 1] .
  then have "anchored (snd ([]::string list, sort_seen s1))"
    by (simp add: anchored_sort_seen)
  from foldE_invariant [where P = "\<lambda>hs. anchored (snd hs)", OF anchored_load_inspect_row this 2]
  have "anchored (snd ([]::string list, s2))" by simp
  from foldE_invariant [where P = "\<lambda>hs. anchored (snd hs)", OF anchored_load_tls_row this 3]
  have "anchored (snd ([]::string list, s3))" by simp
  from foldE_invariant [where P = "\<lambda>hs. anchored (snd hs)", OF anchored_load_analytics_row this 4]
  show ?thesis by simp
qed

lemma load_analytics_row_dropped:
  assumes "index row 0 = Inr r0" "lower r0 \<noteq> ''domain''" "domain_data st (lower r0) = Some r"
    "inspect r = None"
  shows "load_analytics_row row (headers, st) = Inr (headers, st)"
  using assms by (simp add: load_analytics_row_def)

lemma load_tls_row_attached:
  assumes "index row 0 = Inr r0" "lower r0 \<noteq> ''domain''" "domain_data st (lower r0) = Some r"
    "build_dict headers row = Inr dict_row"
  shows "load_tls_row row (headers, st) =
    Inr (headers, st\<lparr>domain_data := (domain_data st)(lower r0 \<mapsto> r\<lparr>tls := Some dict_row\<rparr>)\<rparr>)"
  using assms by (simp add: load_tls_row_def)

lemma example_loaded:
  "\<not> isl (load_data example_domains_csv [] (csv_of example_tls) (csv_of example_analytics) initial)"
  by code_simp

lemma example_loaded_rec:
  "domain_data (projr (load_data example_domains_csv [] (csv_of example_tls)
      (csv_of example_analytics) initial)) ''example.gov'' = Some (bare_rec\<lparr>tls := Some example_tls\<rparr>)"
  by code_simp

subsection \<open>Rounding and the doubles of \<^verbatim>\<open>percent\<close>\<close>

lemma round_half_even_error: "\<bar>of_int (round_half_even x) - x\<bar> \<le> 1 / 2"
proof -
  have "of_int \<lfloor>x\<rfloor> \<le> x" "x < of_int \<lfloor>x\<rfloor> + 1" by linarith+
  then show ?thesis
    by (auto simp: round_half_even_def Let_def)
qed

lemma round_half_even_tie:
  "\<bar>of_int (round_half_even x) - x\<bar> = 1 / 2 \<Longrightarrow> even (round_half_even x)"
proof -
  have *: "of_int \<lfloor>x\<rfloor> \<le> x" "x < of_int \<lfloor>x\<rfloor> + 1" by linarith+
  assume "\<bar>of_int (round_half_even x) - x\<bar> = 1 / 2"
  with * show ?thesis
    by (auto simp: round_half_even_def Let_def split: if_splits)
qed

lemma round_half_even_le: "x \<le> of_int k \<Longrightarrow> round_half_even x \<le> k"
proof -
  assume a: "x \<le> of_int k"
  have *: "of_int \<lfloor>x\<rfloor> \<le> x" "x < of_int \<lfloor>x\<rfloor> + 1" by linarith+
  from a have f: "\<lfloor>x\<rfloor> \<le> k" by (simp add: floor_le_iff)
  show ?thesis
  proof (cases "\<lfloor>x\<rfloor> = k")
    case True
    with a * have "x = of_int k" by simp
    then show ?thesis by (simp add: round_half_even_def)
  next
    case False
    with f have "\<lfloor>x\<rfloor> + 1 \<le> k" by simp
    then show ?thesis by (auto simp: round_half_even_def Let_def)
  qed
qed

lemma round_half_even_ge: "of_int k \<le> x \<Longrightarrow> k \<le> round_half_even x"
proof -
  assume "of_int k \<le> x"
  then have "k \<le> \<lfloor>x\<rfloor>" by (simp add: le_floor_iff)
  then show ?thesis by (auto simp: round_half_even_def Let_def)
qed

lemma ilog2_le:
  assumes "0 < q"
  shows "2 powi (ilog2 q) \<le> q"
proof -
  obtain a b where ab: "quotient_of q = (a, b)" by (cases "quotient_of q")
  then have b: "0 < b" using quotient_of_denom_pos by blast
  from ab have q: "q = of_int a / of_int b" by (rule quotient_of_div)
  with assms b have a: "0 < a" by (simp add: zero_less_divide_iff)
  let ?t = "bitlen a - bitlen b"
  show ?thesis
  proof (cases "2 powi ?t \<le> q")
    case True
    with ab show ?thesis by (simp add: ilog2_def)
  next
    case False
    with ab have i: "ilog2 q = ?t - 1" by (simp add: ilog2_def)
    from bitlen_bounds [OF a] have la: "2 ^ nat (bitlen a - 1) \<le> a" by simp
    from bitlen_bounds [OF b] have ub: "b < 2 ^ nat (bitlen b)" by simp
    have ba: "1 \<le> bitlen a" using a by (simp add: bitlen_alt_def)
    have bb: "0 \<le> bitlen b" by (rule bitlen_nonneg)
    have 1: "(2::rat) powi (bitlen a - 1) \<le> of_int a"
    proof -
      have "(2::rat) powi (bitlen a - 1) = 2 ^ nat (bitlen a - 1)"
        using ba by (simp add: power_int_def)
      also have "\<dots> = of_int (2 ^ nat (bitlen a - 1))" by simp
      also have "\<dots> \<le> of_int a" using la by (simp only: of_int_le_iff)
      finally show ?thesis .
    qed
    have 2: "of_int b \<le> (2::rat) powi (bitlen b)"
    proof -
      have "(of_int b :: rat) \<le> of_int (2 ^ nat (bitlen b))"
        using ub by (simp only: of_int_le_iff)
      also have "\<dots> = 2 powi (bitlen b)" using bb by (simp add: power_int_def)
      finally show ?thesis .
    qed
    have "(2::rat) powi (?t - 1) = 2 powi (bitlen a - 1) / 2 powi (bitlen b)"
      by (simp add: power_int_diff)
    also have "\<dots> \<le> of_int a / of_int b"
      using 1 2 a b by (intro frac_le) simp_all
    finally show ?thesis using i q by simp
  qed
qed

lemma ilog2_less:
  assumes "0 < q" "q < 2 powi k"
  shows "ilog2 q < k"
proof (rule ccontr)
  assume "\<not> ilog2 q < k"
  then have "k \<le> ilog2 q" by simp
  then have "(2::rat) powi k \<le> 2 powi (ilog2 q)"
    by (intro power_int_increasing) simp_all
  with ilog2_le [OF assms(1)] assms(2) show False by simp
qed

lemma ulp_exponent_bound:
  assumes "0 < q"
  shows "2 powi (ulp_exponent q) \<le> max (q / 2 ^ 52) (2 powi (- 1074))"
proof (cases "ilog2 q - 52 \<le> - 1074")
  case True
  with assms show ?thesis by (simp add: ulp_exponent_def max_def)
next
  case False
  then have "ulp_exponent q = ilog2 q - 52"
    using assms by (simp add: ulp_exponent_def max_def)
  then have "(2::rat) powi (ulp_exponent q) = 2 powi (ilog2 q) / 2 ^ 52"
    by (simp add: power_int_diff)
  also have "\<dots> \<le> q / 2 ^ 52"
    using ilog2_le [OF assms] by (simp add: divide_right_mono)
  finally show ?thesis by simp
qed

lemma ulp_exponent_nonpos:
  assumes "0 < q" "q < 2 ^ 53"
  shows "ulp_exponent q \<le> 0"
proof -
  have "q < 2 powi 53" using assms(2) by simp
  from ilog2_less [OF assms(1) this] show ?thesis
    using assms(1) by (simp add: ulp_exponent_def)
qed

lemma fl_nonneg:
  assumes "0 \<le> q"
  shows "0 \<le> fl q"
proof (cases "q = 0")
  case True
  then show ?thesis by (simp add: fl_def)
next
  case False
  have "0 \<le> q / 2 powi (ulp_exponent q)"
    using assms by simp
  then have "of_int 0 \<le> q / 2 powi (ulp_exponent q)" by simp
  from round_half_even_ge [OF this] show ?thesis
    using False by (simp add: fl_def Let_def)
qed

lemma fl_le_int:
  assumes "0 < q" "q \<le> of_int M" "M < 2 ^ 53"
  shows "fl q \<le> of_int M"
proof -
  let ?e = "ulp_exponent q"
  have "q < 2 ^ 53"
  proof -
    have "(of_int M :: rat) < of_int (2 ^ 53)" using assms(3) by (simp only: of_int_less_iff)
    with assms(2) show ?thesis by simp
  qed
  from ulp_exponent_nonpos [OF assms(1) this] have e: "?e \<le> 0" .
  define k where "k = nat (- ?e)"
  have p: "(2::rat) powi ?e = 1 / 2 ^ k"
    using e by (simp add: k_def power_int_def inverse_eq_divide power_one_over)
  have "q / 2 powi ?e = q * 2 ^ k" by (simp add: p)
  also have "\<dots> \<le> of_int M * 2 ^ k" using assms(2) by (simp add: mult_right_mono)
  also have "\<dots> = of_int (M * 2 ^ k)" by simp
  finally have "round_half_even (q / 2 powi ?e) \<le> M * 2 ^ k"
    by (rule round_half_even_le)
  then have "(of_int (round_half_even (q / 2 powi ?e)) :: rat) \<le> of_int (M * 2 ^ k)"
    by (simp only: of_int_le_iff)
  then have "of_int (round_half_even (q / 2 powi ?e)) * (1 / 2 ^ k) \<le> of_int (M * 2 ^ k) * (1 / 2 ^ k :: rat)"
    by (intro mult_right_mono) simp_all
  then show ?thesis
    using assms(1) by (simp add: fl_def Let_def p)
qed

lemma fl_error:
  assumes "q \<noteq> 0"
  shows "\<bar>fl q - q\<bar> \<le> 2 powi (ulp_exponent q) / 2"
proof -
  let ?u = "(2::rat) powi (ulp_exponent q)"
  have u: "0 < ?u" by (simp add: power_int_def)
  have "fl q - q = (of_int (round_half_even (q / ?u)) - q / ?u) * ?u"
    using assms u by (simp add: fl_def Let_def algebra_simps)
  then have "\<bar>fl q - q\<bar> = \<bar>of_int (round_half_even (q / ?u)) - q / ?u\<bar> * ?u"
    using u by (simp add: abs_mult)
  also have "\<dots> \<le> (1 / 2) * ?u"
    using round_half_even_error [of "q / ?u"] u by (intro mult_right_mono) simp_all
  finally show ?thesis by simp
qed

lemma tiny_ulp: "(2::rat) powi (- 1074) \<le> 1 / 2 ^ 52"
proof -
  have "(2::rat) powi (- 1074) \<le> 2 powi (- 52)"
    by (intro power_int_increasing) simp_all
  also have "\<dots> = 1 / 2 ^ 52" by (simp add: power_int_minus_divide)
  finally show ?thesis .
qed

lemma fl_error_le:
  assumes "0 \<le> q" "q \<le> B" "1 \<le> B"
  shows "\<bar>fl q - q\<bar> \<le> B / 2 ^ 53"
proof (cases "q = 0")
  case True
  then show ?thesis using assms(3) by (simp add: fl_def)
next
  case False
  with assms(1) have q: "0 < q" by simp
  have "2 powi (ulp_exponent q) \<le> max (q / 2 ^ 52) (2 powi (- 1074))"
    by (rule ulp_exponent_bound [OF q])
  also have "\<dots> \<le> B / 2 ^ 52"
  proof -
    have "q / 2 ^ 52 \<le> B / 2 ^ 52" using assms(2) by (simp add: divide_right_mono)
    moreover have "(2::rat) powi (- 1074) \<le> B / 2 ^ 52"
    proof -
      have "(1::rat) / 2 ^ 52 \<le> B / 2 ^ 52" using assms(3) by (simp add: divide_right_mono)
      with tiny_ulp show ?thesis by linarith
    qed
    ultimately show ?thesis by simp
  qed
  finally have "2 powi (ulp_exponent q) / 2 \<le> B / 2 ^ 52 / 2" by simp
  with fl_error [OF False] show ?thesis by simp
qed

lemma to_float_Finite:
  assumes "0 \<le> q" "q \<le> of_int M" "M < 2 ^ 53"
  shows "to_float q = Finite (fl q)" "0 \<le> fl q" "fl q \<le> of_int M"
proof -
  show 1: "0 \<le> fl q" by (rule fl_nonneg [OF assms(1)])
  show 2: "fl q \<le> of_int M"
  proof (cases "q = 0")
    case True
    with assms(2) show ?thesis by (simp add: fl_def)
  next
    case False
    with assms(1) have "0 < q" by simp
    from fl_le_int [OF this assms(2,3)] show ?thesis .
  qed
  have "(of_int M :: rat) < of_int (2 ^ 53)" using assms(3) by (simp only: of_int_less_iff)
  then have "(of_int M :: rat) < 2 ^ 53" by simp
  also have "(2::rat) ^ 53 < 2 ^ 1024" by (intro power_strict_increasing) simp_all
  finally have "fl q < 2 ^ 1024" using 2 by simp
  with 1 show "to_float q = Finite (fl q)" by (simp add: to_float_def Let_def)
qed

lemma abs_hundred: "\<bar>a - 100 * c\<bar> \<le> \<bar>a - b * 100\<bar> + 100 * \<bar>b - c\<bar>" for a b c :: rat
proof -
  have "a - 100 * c = (a - b * 100) + 100 * (b - c)" by (simp add: algebra_simps)
  then have "\<bar>a - 100 * c\<bar> \<le> \<bar>a - b * 100\<bar> + \<bar>100 * (b - c)\<bar>"
    by (simp only: abs_triangle_ineq)
  moreover have "\<bar>100 * (b - c)\<bar> = 100 * \<bar>b - c\<bar>"
    by (subst abs_mult) simp
  ultimately show ?thesis by (simp only:)
qed

lemma percent_value:
  assumes "0 \<le> n" "n \<le> d" "0 < d"
  shows "percent n d = Inr (round_half_even (fl (fl (of_int n / of_int d) * 100)))"
    "0 \<le> fl (fl (of_int n / of_int d) * 100)" "fl (fl (of_int n / of_int d) * 100) \<le> 100"
    "\<bar>fl (fl (of_int n / of_int d) * 100) - 100 * of_int n / of_int d\<bar> \<le> 100 / 2 ^ 52"
proof -
  let ?q = "of_int n / of_int d :: rat"
  let ?x = "fl ?q"
  let ?y = "fl (?x * 100)"
  have q: "0 \<le> ?q" "?q \<le> of_int 1" using assms by simp_all
  have x: "to_float ?q = Finite ?x" "0 \<le> ?x" "?x \<le> of_int 1"
    using to_float_Finite [OF q] by simp_all
  have x100: "0 \<le> ?x * 100" "?x * 100 \<le> of_int 100" using x(2,3) by simp_all
  have y: "to_float (?x * 100) = Finite ?y" "0 \<le> ?y" "?y \<le> of_int 100"
    using to_float_Finite [OF x100] by simp_all
  show "percent n d = Inr (round_half_even ?y)"
    using assms(3) x(1) y(1) by (simp add: percent_def truediv_def)
  show "0 \<le> ?y" by (rule y(2))
  show "?y \<le> 100" using y(3) by simp
  have e1: "\<bar>?x - ?q\<bar> \<le> 1 / 2 ^ 53"
    using fl_error_le [OF q(1), of 1] q(2) by simp
  have e2: "\<bar>?y - ?x * 100\<bar> \<le> 100 / 2 ^ 53"
    using fl_error_le [OF x100(1), of 100] x100(2) by simp
  have "\<bar>?y - 100 * ?q\<bar> \<le> \<bar>?y - ?x * 100\<bar> + 100 * \<bar>?x - ?q\<bar>" by (rule abs_hundred)
  also have "\<dots> \<le> 100 / 2 ^ 53 + 100 * (1 / 2 ^ 53)"
  proof -
    have "100 * \<bar>?x - ?q\<bar> \<le> 100 * (1 / 2 ^ 53)"
      using e1 by (intro mult_left_mono) simp_all
    from add_mono [OF e2 this] show ?thesis .
  qed
  also have "\<dots> = 100 / 2 ^ 52" by simp
  finally show "\<bar>?y - 100 * of_int n / of_int d\<bar> \<le> 100 / 2 ^ 52" by simp
qed

lemma percent_total:
  assumes "0 \<le> n" "n \<le> d" "0 < d"
  shows "\<exists>p. percent n d = Inr p \<and> 0 \<le> p \<and> p \<le> 100"
proof -
  note v = percent_value [OF assms]
  have "of_int 0 \<le> fl (fl (of_int n / of_int d) * 100)" using v(2) by simp
  from round_half_even_ge [OF this]
  have 1: "0 \<le> round_half_even (fl (fl (of_int n / of_int d) * 100))" .
  have "fl (fl (of_int n / of_int d) * 100) \<le> of_int 100" using v(3) by simp
  from round_half_even_le [OF this]
  have 2: "round_half_even (fl (fl (of_int n / of_int d) * 100)) \<le> 100" .
  from v(1) 1 2 show ?thesis by simp
qed

lemma percent_one_third: "percent 1 3 = Inr 33"
  by code_simp

lemma percent_two_thirds: "percent 2 3 = Inr 67"
  by code_simp

lemma percent_one_eighth: "percent 1 8 = Inr 12"
  by code_simp

subsection \<open>Counting loops\<close>

lemma fold_count:
  "fold (\<lambda>row e. if P row then e + 1 else e) rows (k::int) = k + int (length (filter P rows))"
  by (induction rows arbitrary: k) simp_all

lemma https_enabled_eq:
  "https_enabled rows = int (length (filter (\<lambda>r. 1 \<le> h_https r \<and> 1 \<le> h_https_forced r) rows))"
  by (simp add: https_enabled_def fold_count)

lemma analytics_enabled_eq:
  "analytics_enabled rows = int (length (filter (\<lambda>r. 1 \<le> a_dap r) rows))"
  by (simp add: analytics_enabled_def fold_count)

lemma percent_of_filter:
  assumes "rows \<noteq> []"
  shows "\<exists>p. percent (int (length (filter P rows))) (int (length rows)) = Inr p \<and> 0 \<le> p \<and> p \<le> 100"
  using assms by (intro percent_total) simp_all

lemma https_summary_eq:
  assumes "percent (int (length (filter (\<lambda>r. 1 \<le> h_https r \<and> 1 \<le> h_https_forced r) rows)))
             (int (length rows)) = Inr pct"
  shows "https_summary rows = Inr (table_of pct)"
  using assms by (simp add: https_summary_def https_enabled_eq)

lemma analytics_summary_eq:
  assumes "percent (int (length (filter (\<lambda>r. 1 \<le> a_dap r) rows))) (int (length rows)) = Inr pct"
  shows "analytics_summary rows = Inr (table_of pct)"
  using assms by (simp add: analytics_summary_def analytics_enabled_eq)

lemma summary_of_empty:
  "https_summary [] = Inl ZeroDivisionError" "analytics_summary [] = Inl ZeroDivisionError"
  by (simp_all add: https_summary_def analytics_summary_def percent_def truediv_def)

lemma percent_all: "percent 1 1 = Inr 100"
  by code_simp

lemma count_https_eq:
  "count_https row cs =
     cs\<lparr>https_total := https_total cs + 1,
        n_https := n_https cs + (if 1 \<le> h_https row then 1 else 0),
        n_https_forced := n_https_forced cs + (if 2 \<le> h_https_forced row then 1 else 0),
        n_hsts := n_hsts cs + (if 1 \<le> h_hsts row then 1 else 0),
        n_grade := n_grade cs + (if 4 \<le> h_grade row then 1 else 0)\<rparr>"
  by (simp add: count_https_def Let_def)

lemma count_analytics_eq:
  "count_analytics row cs =
     cs\<lparr>analytics_total := analytics_total cs + 1,
        n_dap := n_dap cs + (if 1 \<le> a_dap row then 1 else 0)\<rparr>"
  by (simp add: count_analytics_def Let_def)

lemma count_domain_eq:
  assumes "evaluating_for_https dd d = Inr eh" "eh \<longrightarrow> https_row_for dd d = Inr hrow"
    "evaluating_for_analytics dd d = Inr ea" "ea \<longrightarrow> analytics_row_for dd d = Inr arow"
  shows "count_domain dd d cs =
     Inr ((if ea then count_analytics arow else id) ((if eh then count_https hrow else id) cs))"
  using assms by (simp add: count_domain_def)

lemma foldE_count_domain:
  assumes "\<forall>d\<in>set members.
      evaluating_for_https dd d = Inr (eh d) \<and> (eh d \<longrightarrow> https_row_for dd d = Inr (hrow d)) \<and>
      evaluating_for_analytics dd d = Inr (ea d) \<and> (ea d \<longrightarrow> analytics_row_for dd d = Inr (arow d))"
  shows "foldE (count_domain dd) members cs =
     Inr (cs\<lparr>https_total := https_total cs + int (length (filter eh members)),
        n_https := n_https cs + int (length (filter (\<lambda>r. 1 \<le> h_https r) (map hrow (filter eh members)))),
        n_https_forced := n_https_forced cs +
          int (length (filter (\<lambda>r. 2 \<le> h_https_forced r) (map hrow (filter eh members)))),
        n_hsts := n_hsts cs + int (length (filter (\<lambda>r. 1 \<le> h_hsts r) (map hrow (filter eh members)))),
        n_grade := n_grade cs + int (length (filter (\<lambda>r. 4 \<le> h_grade r) (map hrow (filter eh members)))),
        analytics_total := analytics_total cs + int (length (filter ea members)),
        n_dap := n_dap cs + int (length (filter (\<lambda>r. 1 \<le> a_dap r) (map arow (filter ea members))))\<rparr>)"
  using assms
proof (induction members arbitrary: cs)
  case Nil
  then show ?case by simp
next
  case (Cons d members)
  from Cons.prems have d: "evaluating_for_https dd d = Inr (eh d)"
    "eh d \<longrightarrow> https_row_for dd d = Inr (hrow d)"
    "evaluating_for_analytics dd d = Inr (ea d)"
    "ea d \<longrightarrow> analytics_row_for dd d = Inr (arow d)"
    by simp_all
  from Cons.prems have rest: "\<forall>d\<in>set members.
      evaluating_for_https dd d = Inr (eh d) \<and> (eh d \<longrightarrow> https_row_for dd d = Inr (hrow d)) \<and>
      evaluating_for_analytics dd d = Inr (ea d) \<and> (ea d \<longrightarrow> analytics_row_for dd d = Inr (arow d))"
    by simp
  show ?case
    by (simp add: count_domain_eq [OF d] Cons.IH [OF rest] count_https_eq count_analytics_eq)
qed

lemma example_analytics_row_for:
  "analytics_row_for (example_data example_inspect example_tls) ''example.gov'' =
     Inr \<lparr>a_Domain = ''example.gov'', a_Canonical = ''https://example.gov'',
          a_Agency = ''Department of Examples'', a_dap = 1\<rparr>"
  by (simp add: analytics_row_for_def lookup_domain_def subrecord_def getitem_def example_data_def
      example_rec_def example_inspect_def example_analytics_def boolean_nice_def)

lemma example_evaluated:
  "evaluating_for_https (example_data example_inspect example_tls) ''example.gov'' = Inr True"
  "evaluating_for_analytics (example_data example_inspect example_tls) ''example.gov'' = Inr True"
  by (simp_all add: evaluating_for_https_iff evaluating_for_analytics_iff example_data_def
      example_rec_def example_inspect_def)

subsection \<open>Percentages of any ratio\<close>

lemma fl_error_rel:
  assumes "0 \<le> q"
  shows "\<bar>fl q - q\<bar> \<le> q / 2 ^ 53 + 1 / 2 ^ 1075"
proof (cases "q = 0")
  case True
  then show ?thesis by (simp add: fl_def)
next
  case False
  with assms have q: "0 < q" by simp
  have t: "(2::rat) powi (- 1074) = 1 / 2 ^ 1074" by (simp add: power_int_minus_divide)
  have "2 powi (ulp_exponent q) \<le> max (q / 2 ^ 52) (2 powi (- 1074))"
    by (rule ulp_exponent_bound [OF q])
  also have "\<dots> \<le> q / 2 ^ 52 + 1 / 2 ^ 1074"
    using q by (simp add: t)
  finally have "2 powi (ulp_exponent q) / 2 \<le> (q / 2 ^ 52 + 1 / 2 ^ 1074) / 2"
    by (simp only: divide_right_mono zero_le_numeral)
  also have "\<dots> = q / 2 ^ 53 + 1 / 2 ^ 1075" by (simp add: add_divide_distrib)
  finally show ?thesis using fl_error [OF False] by (rule order_trans [rotated])
qed


lemma two_roundings:
  fixes q x y t :: rat
  assumes "0 \<le> q" "\<bar>x - q\<bar> \<le> q / 2 ^ 53 + t" "\<bar>y - x * 100\<bar> \<le> x * 100 / 2 ^ 53 + t" "0 \<le> t"
  shows "\<bar>y - 100 * q\<bar> \<le> 100 * q / 2 ^ 51 + 128 * t"
  using assms by (simp add: abs_le_iff)

lemma no_overflow:
  fixes q x y t K :: rat
  assumes "0 \<le> q" "100 * q \<le> K" "\<bar>x - q\<bar> \<le> q / 2 ^ 53 + t" "\<bar>y - x * 100\<bar> \<le> x * 100 / 2 ^ 53 + t"
    "0 \<le> t" "t \<le> 1" "1024 \<le> K"
  shows "x < 2 * K" "y < 2 * K"
  using assms by (simp_all add: abs_le_iff)

lemma percent_cases:
  assumes "0 < d"
  shows "percent n d = Inl OverflowError \<or>
         percent n d = Inr (round_half_even (fl (fl (of_int n / of_int d) * 100)))"
  using assms by (simp add: percent_def truediv_def to_float_def Let_def)

lemma percent_error:
  assumes "0 \<le> n" "0 < d"
  shows "0 \<le> fl (fl (of_int n / of_int d) * 100)"
    "\<bar>fl (fl (of_int n / of_int d) * 100) - 100 * of_int n / of_int d\<bar>
       \<le> 100 * of_int n / of_int d / 2 ^ 51 + 1 / 2 ^ 1068"
proof -
  let ?q = "of_int n / of_int d :: rat"
  let ?x = "fl ?q"
  let ?y = "fl (?x * 100)"
  have q: "0 \<le> ?q" using assms by simp
  have x: "0 \<le> ?x * 100" using fl_nonneg [OF q] by simp
  show "0 \<le> ?y" by (rule fl_nonneg [OF x])
  have "\<bar>?y - 100 * ?q\<bar> \<le> 100 * ?q / 2 ^ 51 + 128 * (1 / 2 ^ 1075)"
    by (rule two_roundings [OF q fl_error_rel [OF q] fl_error_rel [OF x]]) simp
  then show "\<bar>?y - 100 * of_int n / of_int d\<bar> \<le> 100 * of_int n / of_int d / 2 ^ 51 + 1 / 2 ^ 1068"
    by simp
qed

lemma percent_returns:
  assumes "0 \<le> n" "0 < d" "100 * n \<le> 2 ^ 1023 * d"
  shows "percent n d = Inr (round_half_even (fl (fl (of_int n / of_int d) * 100)))"
proof -
  let ?q = "of_int n / of_int d :: rat"
  let ?x = "fl ?q"
  let ?y = "fl (?x * 100)"
  have q: "0 \<le> ?q" using assms by simp
  have x: "0 \<le> ?x" by (rule fl_nonneg [OF q])
  then have x100: "0 \<le> ?x * 100" by simp
  have y: "0 \<le> ?y" by (rule fl_nonneg [OF x100])
  have "(of_int (100 * n) :: rat) \<le> of_int (2 ^ 1023 * d)"
    using assms(3) by (simp only: of_int_le_iff)
  then have "100 * of_int n \<le> (2 ^ 1023 :: rat) * of_int d" by simp
  then have k: "100 * ?q \<le> 2 ^ 1023"
    using assms(2) by (simp add: pos_divide_le_eq)
  have b: "?x < 2 * 2 ^ 1023" "?y < 2 * 2 ^ 1023"
    by (rule no_overflow [OF q k fl_error_rel [OF q] fl_error_rel [OF x100]]; simp)+
  have "to_float ?q = Finite ?x"
    using x b(1) by (simp add: to_float_def Let_def)
  moreover have "to_float (?x * 100) = Finite ?y"
    using y b(2) by (simp add: to_float_def Let_def)
  ultimately show ?thesis
    using assms(2) by (simp add: percent_def truediv_def)
qed

lemma percent_over: "percent 3 2 = Inr 150"
  by code_simp

lemma percent_overflow:
  assumes "0 < d" "2 ^ 1025 * d \<le> n"
  shows "percent n d = Inl OverflowError"
proof -
  let ?q = "of_int n / of_int d :: rat"
  have "(of_int (2 ^ 1025 * d) :: rat) \<le> of_int n"
    using assms(2) by (simp only: of_int_le_iff)
  then have "(2 ^ 1025 :: rat) * of_int d \<le> of_int n" by simp
  then have k: "2 ^ 1025 \<le> ?q"
    using assms(1) by (simp add: pos_le_divide_eq)
  then have q: "0 \<le> ?q" by simp
  from fl_error_rel [OF q] k have "2 ^ 1024 \<le> fl ?q"
    by (simp add: abs_le_iff)
  then have "2 ^ 1024 \<le> \<bar>fl ?q\<bar>" by simp
  then have "to_float ?q = Infinity"
    by (simp only: to_float_def Let_def if_True)
  then show ?thesis
    using assms(1) by (simp add: percent_def truediv_def)
qed

subsection \<open>The rows of one agency\<close>

lemma process_agency_rollup:
  assumes "agency_data st a = Some members"
    and "\<forall>d\<in>set members.
      evaluating_for_https (domain_data st) d = Inr (eh d) \<and>
      (eh d \<longrightarrow> https_row_for (domain_data st) d = Inr (hrow d)) \<and>
      evaluating_for_analytics (domain_data st) d = Inr (ea d) \<and>
      (ea d \<longrightarrow> analytics_row_for (domain_data st) d = Inr (arow d))"
    and "hs = map hrow (filter eh members)" and "as = map arow (filter ea members)"
  shows "\<exists>p1 p2 p3 p4 q.
      (hs \<noteq> [] \<longrightarrow>
         percent (int (length (filter (\<lambda>r. 1 \<le> h_https r) hs))) (int (length hs)) = Inr p1 \<and>
         percent (int (length (filter (\<lambda>r. 2 \<le> h_https_forced r) hs))) (int (length hs)) = Inr p2 \<and>
         percent (int (length (filter (\<lambda>r. 1 \<le> h_hsts r) hs))) (int (length hs)) = Inr p3 \<and>
         percent (int (length (filter (\<lambda>r. 4 \<le> h_grade r) hs))) (int (length hs)) = Inr p4 \<and>
         {p1, p2, p3, p4} \<subseteq> {0..100}) \<and>
      (as \<noteq> [] \<longrightarrow>
         percent (int (length (filter (\<lambda>r. 1 \<le> a_dap r) as))) (int (length as)) = Inr q \<and>
         q \<in> {0..100}) \<and>
      process_agency a st =
        Inr (st\<lparr>https_agencies := https_agencies st @
                 (if hs = [] then []
                  else [\<lparr>ha_Agency = a, ha_Number_of_Domains = int (length hs), ha_https = p1,
                         ha_https_forced = p2, ha_hsts = p3, ha_grade_agencies = p4\<rparr>]),
               analytics_agencies := analytics_agencies st @
                 (if as = [] then []
                  else [\<lparr>aa_Agency = a, aa_Number_of_Domains = int (length as), aa_dap = q\<rparr>])\<rparr>)"
proof -
  let ?cs = "\<lparr>https_total = int (length hs),
      n_https = int (length (filter (\<lambda>r. 1 \<le> h_https r) hs)),
      n_https_forced = int (length (filter (\<lambda>r. 2 \<le> h_https_forced r) hs)),
      n_hsts = int (length (filter (\<lambda>r. 1 \<le> h_hsts r) hs)),
      n_grade = int (length (filter (\<lambda>r. 4 \<le> h_grade r) hs)),
      analytics_total = int (length as),
      n_dap = int (length (filter (\<lambda>r. 1 \<le> a_dap r) as))\<rparr>"
  have cs: "foldE (count_domain (domain_data st)) members zero_counters = Inr ?cs"
    by (simp add: foldE_count_domain [OF assms(2)] assms(3,4) zero_counters_def)
  obtain p1 p2 p3 p4 where p: "hs \<noteq> [] \<longrightarrow>
      percent (int (length (filter (\<lambda>r. 1 \<le> h_https r) hs))) (int (length hs)) = Inr p1 \<and>
      percent (int (length (filter (\<lambda>r. 2 \<le> h_https_forced r) hs))) (int (length hs)) = Inr p2 \<and>
      percent (int (length (filter (\<lambda>r. 1 \<le> h_hsts r) hs))) (int (length hs)) = Inr p3 \<and>
      percent (int (length (filter (\<lambda>r. 4 \<le> h_grade r) hs))) (int (length hs)) = Inr p4 \<and>
      {p1, p2, p3, p4} \<subseteq> {0..100}"
  proof (cases "hs = []")
    case True
    then show ?thesis using that by simp
  next
    case False
    from percent_of_filter [OF False, of "\<lambda>r. 1 \<le> h_https r"]
      percent_of_filter [OF False, of "\<lambda>r. 2 \<le> h_https_forced r"]
      percent_of_filter [OF False, of "\<lambda>r. 1 \<le> h_hsts r"]
      percent_of_filter [OF False, of "\<lambda>r. 4 \<le> h_grade r"]
    obtain x1 x2 x3 x4 where
      "percent (int (length (filter (\<lambda>r. 1 \<le> h_https r) hs))) (int (length hs)) = Inr x1 \<and> 0 \<le> x1 \<and> x1 \<le> 100"
      "percent (int (length (filter (\<lambda>r. 2 \<le> h_https_forced r) hs))) (int (length hs)) = Inr x2 \<and> 0 \<le> x2 \<and> x2 \<le> 100"
      "percent (int (length (filter (\<lambda>r. 1 \<le> h_hsts r) hs))) (int (length hs)) = Inr x3 \<and> 0 \<le> x3 \<and> x3 \<le> 100"
      "percent (int (length (filter (\<lambda>r. 4 \<le> h_grade r) hs))) (int (length hs)) = Inr x4 \<and> 0 \<le> x4 \<and> x4 \<le> 100"
      by blast
    then show ?thesis using that [of x1 x2 x3 x4] by simp
  qed
  obtain q where q: "as \<noteq> [] \<longrightarrow>
      percent (int (length (filter (\<lambda>r. 1 \<le> a_dap r) as))) (int (length as)) = Inr q \<and> q \<in> {0..100}"
  proof (cases "as = []")
    case True
    then show ?thesis using that by simp
  next
    case False
    from percent_of_filter [OF False, of "\<lambda>r. 1 \<le> a_dap r"] obtain x where
      "percent (int (length (filter (\<lambda>r. 1 \<le> a_dap r) as))) (int (length as)) = Inr x \<and> 0 \<le> x \<and> x \<le> 100"
      by blast
    then show ?thesis using that [of x] by simp
  qed
  let ?st1 = "st\<lparr>https_agencies := https_agencies st @
                 (if hs = [] then []
                  else [\<lparr>ha_Agency = a, ha_Number_of_Domains = int (length hs), ha_https = p1,
                         ha_https_forced = p2, ha_hsts = p3, ha_grade_agencies = p4\<rparr>])\<rparr>"
  have e1: "emit_https_agency a ?cs st = Inr ?st1"
    using p by (cases "hs = []") (simp_all add: emit_https_agency_def)
  have e2: "emit_analytics_agency a ?cs ?st1 =
      Inr (?st1\<lparr>analytics_agencies := analytics_agencies st @
                 (if as = [] then []
                  else [\<lparr>aa_Agency = a, aa_Number_of_Domains = int (length as), aa_dap = q\<rparr>])\<rparr>)"
    using q by (cases "as = []") (simp_all add: emit_analytics_agency_def)
  have "process_agency a st =
      Inr (?st1\<lparr>analytics_agencies := analytics_agencies st @
                 (if as = [] then []
                  else [\<lparr>aa_Agency = a, aa_Number_of_Domains = int (length as), aa_dap = q\<rparr>])\<rparr>)"
    by (simp only: process_agency_def members_of_def assms(1) option.case bindE_Inr cs e1 e2)
  with p q show ?thesis by blast
qed

subsection \<open>The two loops of \<^verbatim>\<open>process_domains\<close>\<close>

lemma process_domain_eq:
  assumes "evaluating_for_https (domain_data st) d = Inr eh"
    "eh \<longrightarrow> https_row_for (domain_data st) d = Inr hrow"
    "evaluating_for_analytics (domain_data st) d = Inr ea"
    "ea \<longrightarrow> analytics_row_for (domain_data st) d = Inr arow"
  shows "process_domain d st =
     Inr (st\<lparr>https_domains := https_domains st @ (if eh then [hrow] else []),
            analytics_domains := analytics_domains st @ (if ea then [arow] else [])\<rparr>)"
  using assms by (simp add: process_domain_def)

lemma foldE_process_domain:
  assumes "\<forall>d\<in>set ds.
      evaluating_for_https dd d = Inr (eh d) \<and> (eh d \<longrightarrow> https_row_for dd d = Inr (hrow d)) \<and>
      evaluating_for_analytics dd d = Inr (ea d) \<and> (ea d \<longrightarrow> analytics_row_for dd d = Inr (arow d))"
    and "domain_data st = dd"
  shows "foldE process_domain ds st =
     Inr (st\<lparr>https_domains := https_domains st @ map hrow (filter eh ds),
            analytics_domains := analytics_domains st @ map arow (filter ea ds)\<rparr>)"
  using assms
proof (induction ds arbitrary: st)
  case Nil
  then show ?case by simp
next
  case (Cons d ds)
  let ?st1 = "st\<lparr>https_domains := https_domains st @ (if eh d then [hrow d] else []),
            analytics_domains := analytics_domains st @ (if ea d then [arow d] else [])\<rparr>"
  from Cons.prems have d: "evaluating_for_https (domain_data st) d = Inr (eh d)"
    "eh d \<longrightarrow> https_row_for (domain_data st) d = Inr (hrow d)"
    "evaluating_for_analytics (domain_data st) d = Inr (ea d)"
    "ea d \<longrightarrow> analytics_row_for (domain_data st) d = Inr (arow d)"
    by simp_all
  from Cons.prems have rest: "\<forall>d\<in>set ds.
      evaluating_for_https dd d = Inr (eh d) \<and> (eh d \<longrightarrow> https_row_for dd d = Inr (hrow d)) \<and>
      evaluating_for_analytics dd d = Inr (ea d) \<and> (ea d \<longrightarrow> analytics_row_for dd d = Inr (arow d))"
    by simp
  from Cons.prems(2) have dd: "domain_data ?st1 = dd" by simp
  show ?case
    by (simp add: process_domain_eq [OF d] Cons.IH [OF rest dd])
qed

lemma foldE_process_agency:
  assumes "\<forall>a\<in>set as. ad a = Some (members a) \<and> (\<forall>d\<in>set (members a).
      evaluating_for_https dd d = Inr (eh d) \<and> (eh d \<longrightarrow> https_row_for dd d = Inr (hrow d)) \<and>
      evaluating_for_analytics dd d = Inr (ea d) \<and> (ea d \<longrightarrow> analytics_row_for dd d = Inr (arow d)))"
    and "domain_data st = dd" "agency_data st = ad"
  shows "\<exists>hr ar. foldE process_agency as st =
       Inr (st\<lparr>https_agencies := https_agencies st @ hr,
              analytics_agencies := analytics_agencies st @ ar\<rparr>) \<and>
     list_all2 (\<lambda>a row. https_rollup_row a (map hrow (filter eh (members a))) row)
       (filter (\<lambda>a. filter eh (members a) \<noteq> []) as) hr \<and>
     list_all2 (\<lambda>a row. analytics_rollup_row a (map arow (filter ea (members a))) row)
       (filter (\<lambda>a. filter ea (members a) \<noteq> []) as) ar"
  using assms
proof (induction as arbitrary: st)
  case Nil
  have "foldE process_agency [] st =
      Inr (st\<lparr>https_agencies := https_agencies st @ [], analytics_agencies := analytics_agencies st @ []\<rparr>)"
    by simp
  then show ?case by (intro exI [of _ "[]"]) simp
next
  case (Cons a as)
  let ?hs = "map hrow (filter eh (members a))"
  let ?as = "map arow (filter ea (members a))"
  from Cons.prems have m: "agency_data st a = Some (members a)" by simp
  from Cons.prems have c: "\<forall>d\<in>set (members a).
      evaluating_for_https (domain_data st) d = Inr (eh d) \<and>
      (eh d \<longrightarrow> https_row_for (domain_data st) d = Inr (hrow d)) \<and>
      evaluating_for_analytics (domain_data st) d = Inr (ea d) \<and>
      (ea d \<longrightarrow> analytics_row_for (domain_data st) d = Inr (arow d))"
    by simp
  from process_agency_rollup [OF m c refl refl] obtain p1 p2 p3 p4 q where
    h: "?hs \<noteq> [] \<longrightarrow>
         percent (int (length (filter (\<lambda>r. 1 \<le> h_https r) ?hs))) (int (length ?hs)) = Inr p1 \<and>
         percent (int (length (filter (\<lambda>r. 2 \<le> h_https_forced r) ?hs))) (int (length ?hs)) = Inr p2 \<and>
         percent (int (length (filter (\<lambda>r. 1 \<le> h_hsts r) ?hs))) (int (length ?hs)) = Inr p3 \<and>
         percent (int (length (filter (\<lambda>r. 4 \<le> h_grade r) ?hs))) (int (length ?hs)) = Inr p4 \<and>
         {p1, p2, p3, p4} \<subseteq> {0..100}" and
    an: "?as \<noteq> [] \<longrightarrow>
         percent (int (length (filter (\<lambda>r. 1 \<le> a_dap r) ?as))) (int (length ?as)) = Inr q \<and>
         q \<in> {0..100}" and
    pa: "process_agency a st =
        Inr (st\<lparr>https_agencies := https_agencies st @
                 (if ?hs = [] then []
                  else [\<lparr>ha_Agency = a, ha_Number_of_Domains = int (length ?hs), ha_https = p1,
                         ha_https_forced = p2, ha_hsts = p3, ha_grade_agencies = p4\<rparr>]),
               analytics_agencies := analytics_agencies st @
                 (if ?as = [] then []
                  else [\<lparr>aa_Agency = a, aa_Number_of_Domains = int (length ?as), aa_dap = q\<rparr>])\<rparr>)"
    by blast
  let ?h1 = "if ?hs = [] then []
                  else [\<lparr>ha_Agency = a, ha_Number_of_Domains = int (length ?hs), ha_https = p1,
                         ha_https_forced = p2, ha_hsts = p3, ha_grade_agencies = p4\<rparr>]"
  let ?a1 = "if ?as = [] then []
                  else [\<lparr>aa_Agency = a, aa_Number_of_Domains = int (length ?as), aa_dap = q\<rparr>]"
  let ?st1 = "st\<lparr>https_agencies := https_agencies st @ ?h1,
               analytics_agencies := analytics_agencies st @ ?a1\<rparr>"
  from Cons.prems have rest: "\<forall>a\<in>set as. ad a = Some (members a) \<and> (\<forall>d\<in>set (members a).
      evaluating_for_https dd d = Inr (eh d) \<and> (eh d \<longrightarrow> https_row_for dd d = Inr (hrow d)) \<and>
      evaluating_for_analytics dd d = Inr (ea d) \<and> (ea d \<longrightarrow> analytics_row_for dd d = Inr (arow d)))"
    by simp
  from Cons.prems have inv: "domain_data ?st1 = dd" "agency_data ?st1 = ad" by simp_all
  from Cons.IH [OF rest inv] obtain hr ar where
    f: "foldE process_agency as ?st1 =
       Inr (?st1\<lparr>https_agencies := https_agencies ?st1 @ hr,
              analytics_agencies := analytics_agencies ?st1 @ ar\<rparr>)" and
    lh: "list_all2 (\<lambda>a row. https_rollup_row a (map hrow (filter eh (members a))) row)
       (filter (\<lambda>a. filter eh (members a) \<noteq> []) as) hr" and
    la: "list_all2 (\<lambda>a row. analytics_rollup_row a (map arow (filter ea (members a))) row)
       (filter (\<lambda>a. filter ea (members a) \<noteq> []) as) ar"
    by blast
  have 1: "foldE process_agency (a # as) st =
       Inr (st\<lparr>https_agencies := https_agencies st @ (?h1 @ hr),
              analytics_agencies := analytics_agencies st @ (?a1 @ ar)\<rparr>)"
    using pa f by simp
  have 2: "list_all2 (\<lambda>a row. https_rollup_row a (map hrow (filter eh (members a))) row)
       (filter (\<lambda>a. filter eh (members a) \<noteq> []) (a # as)) (?h1 @ hr)"
    using lh h by (simp add: https_rollup_row_def)
  have 3: "list_all2 (\<lambda>a row. analytics_rollup_row a (map arow (filter ea (members a))) row)
       (filter (\<lambda>a. filter ea (members a) \<noteq> []) (a # as)) (?a1 @ ar)"
    using la an by (simp add: analytics_rollup_row_def)
  from 1 2 3 show ?case by blast
qed

lemma list_all2_map_eq:
  "list_all2 (\<lambda>a row. f row = a) xs ys \<Longrightarrow> map f ys = xs"
  by (induction rule: list_all2_induct) simp_all

lemma percent_half: "percent 1 2 = Inr 50" "percent 0 2 = Inr 0"
  by code_simp+

lemma rollup_state_classified:
  "evaluating_for_https (domain_data rollup_state) ''court.gov'' = Inr False"
  "evaluating_for_analytics (domain_data rollup_state) ''court.gov'' = Inr False"
  "evaluating_for_https (domain_data rollup_state) ''example.gov'' = Inr True"
  "evaluating_for_analytics (domain_data rollup_state) ''example.gov'' = Inr True"
  "evaluating_for_https (domain_data rollup_state) ''other.gov'' = Inr True"
  "evaluating_for_analytics (domain_data rollup_state) ''other.gov'' = Inr True"
  by (simp_all add: rollup_state_def court_rec_def other_rec_def example_rec_def
      evaluating_for_https_def evaluating_for_analytics_def lookup_domain_def andE_def
      item_is_def getitem_def subrecord_def example_inspect_def downgraded_inspect_def)

lemma rollup_state_rows:
  "https_row_for (domain_data rollup_state) ''example.gov'' = Inr example_row"
  "https_row_for (domain_data rollup_state) ''other.gov'' = Inr other_row"
  "analytics_row_for (domain_data rollup_state) ''example.gov'' =
     Inr (example_analytics_row ''example.gov'' 1)"
  "analytics_row_for (domain_data rollup_state) ''other.gov'' =
     Inr (example_analytics_row ''other.gov'' 0)"
  by (simp_all add: rollup_state_def other_rec_def other_row_def other_analytics_def
      example_analytics_row_def analytics_row_for_def boolean_nice_def eval_classifier)

section \<open>The claims\<close>

text \<open>
  C4. A domain of the registry is evaluated for HTTPS exactly when it has an inspect record
  whose \<open>Live\<close> cell is \<open>True\<close>, and for analytics exactly when it has an inspect and an
  analytics record, \<open>Live\<close> is \<open>True\<close>, \<open>Redirect\<close> is \<open>False\<close> and its branch is
  \<open>executive\<close>. A domain of the registry without an inspect record is evaluated for neither,
  and no exception is raised.
\<close>

theorem eligibility:
  "(evaluating_for_https dd d = Inr True \<longleftrightarrow>
      (\<exists>r i. dd d = Some r \<and> inspect r = Some i \<and> map_of i ''Live'' = Some ''True'')) \<and>
   (evaluating_for_analytics dd d = Inr True \<longleftrightarrow>
      (\<exists>r i a. dd d = Some r \<and> inspect r = Some i \<and> analytics r = Some a \<and>
          map_of i ''Live'' = Some ''True'' \<and> map_of i ''Redirect'' = Some ''False'' \<and>
          branch r = ''executive'')) \<and>
   (\<forall>r. dd d = Some r \<and> inspect r = None \<longrightarrow>
      evaluating_for_https dd d = Inr False \<and> evaluating_for_analytics dd d = Inr False)"
  using evaluating_for_https_iff [of dd d] evaluating_for_analytics_iff [of dd d]
    no_inspect_not_evaluated [of dd d]
  by blast

theorem eligibility_witness:
  "evaluating_for_https (example_data example_inspect example_tls) ''example.gov'' = Inr True \<and>
   evaluating_for_analytics (example_data example_inspect example_tls) ''example.gov'' = Inr True \<and>
   evaluating_for_https [''example.gov'' \<mapsto> (example_rec [] [])\<lparr>inspect := None\<rparr>] ''example.gov''
     = Inr False"
  using eligibility [of "example_data example_inspect example_tls" "''example.gov''"]
    eligibility [of "[''example.gov'' \<mapsto> (example_rec [] [])\<lparr>inspect := None\<rparr>]" "''example.gov''"]
  by (simp add: example_data_def example_rec_def example_inspect_def)

text \<open>
  C3. Every row that \<open>https_row_for\<close> returns has a presence score in \<open>{-1, 0, 1, 2}\<close>, an
  enforcement score in \<open>{0, 1, 2, 3}\<close> that is 0 whenever the presence score is at most 0, an
  HSTS score in \<open>{-1, 0, 1, 2, 3}\<close> that is -1 whenever the presence score is at most 0, and a
  grade score in \<open>{-1, 0, ..., 6}\<close>.
\<close>

theorem score_ranges:
  assumes "https_row_for dd domain = Inr row"
  shows "h_https row \<in> {- 1, 0, 1, 2} \<and>
         h_https_forced row \<in> {0, 1, 2, 3} \<and> (h_https row \<le> 0 \<longrightarrow> h_https_forced row = 0) \<and>
         h_hsts row \<in> {- 1, 0, 1, 2, 3} \<and> (h_https row \<le> 0 \<longrightarrow> h_hsts row = - 1) \<and>
         h_grade row \<in> {- 1, 0, 1, 2, 3, 4, 5, 6}"
proof -
  from assms obtain r i d where
    "dd domain = Some r" "inspect r = Some i" "map_of i ''Canonical'' = Some (h_Canonical row)" and
    u: "uses_https i = Inr (h_https row)" and
    e: "enforces_https i (h_https row) = Inr (h_https_forced row)" and
    h: "hsts_block i (h_https row) = Inr (h_hsts row, h_hsts_age row)" and
    g: "grade_block (tls r) (h_https row) = Inr d" "h_grade row = d_grade d"
    by (rule https_row_for_blocks)
  from uses_https_range [OF u] enforces_https_range [OF e] hsts_block_range [OF h]
    grade_block_range [OF g(1)] g(2)
  show ?thesis by simp
qed

theorem score_ranges_witness:
  "https_row_for (example_data example_inspect example_tls) ''example.gov'' = Inr example_row \<and>
   h_https example_row \<in> {- 1, 0, 1, 2} \<and>
   h_https_forced example_row \<in> {0, 1, 2, 3} \<and> 
   h_hsts example_row \<in> {- 1, 0, 1, 2, 3} \<and>
   h_grade example_row \<in> {- 1, 0, 1, 2, 3, 4, 5, 6} \<and>
   https_row_for (example_data downgraded_inspect unknown_grade_tls) ''example.gov'' = Inr downgraded_row \<and>
   h_https downgraded_row \<le> 0 \<and> h_https_forced downgraded_row = 0 \<and> h_hsts downgraded_row = - 1"
proof -
  have 1: "https_row_for (example_data example_inspect example_tls) ''example.gov'' = Inr example_row"
    by (simp add: eval_classifier)
  have 2: "https_row_for (example_data downgraded_inspect unknown_grade_tls) ''example.gov'' = Inr downgraded_row"
    by (simp add: eval_classifier)
  have 3: "h_https downgraded_row \<le> 0"
    by (simp add: downgraded_row_def)
  show ?thesis
    using score_ranges [OF 1] score_ranges [OF 2] 1 2 3 by simp
qed

text \<open>
  C1, as stated: every domain evaluated for HTTPS gets the score of the ladder, which is -1
  when the presence score is at most 0. It does not: the max-age cell is converted before the
  first rung, so the example domain with HTTPS downgraded and the max-age \<open>abc\<close> is evaluated
  for HTTPS, has the presence score 0, and \<open>https_row_for\<close> raises ValueError.
\<close>

theorem ladder_after_parse_counterexample:
  "evaluating_for_https (example_data downgraded_malformed_inspect example_tls) ''example.gov'' =
     Inr True \<and>
   uses_https downgraded_malformed_inspect = Inr 0 \<and>
   hsts_ladder 0 ''True'' ''False'' 0 ''True'' = - 1 \<and>
   hsts_block downgraded_malformed_inspect 0 = Inl ValueError \<and>
   https_row_for (example_data downgraded_malformed_inspect example_tls) ''example.gov'' =
     Inl ValueError"
  by (simp add: eval_classifier downgraded_malformed_inspect_def evaluating_for_https_def
      hsts_ladder_def)

text \<open>
  C1, amended. Let the max-age cell be a string that \<^verbatim>\<open>int\<close> accepts, or be empty where the
  ladder is decided before the comparison (the presence score is at most 0, \<open>HSTS\<close> is
  \<open>False\<close>, or \<open>HSTS Preload Ready\<close> is \<open>True\<close>). Then the HSTS score is computed by the
  ordered ladder: -1 when the presence score is at most 0; else 0 when \<open>HSTS\<close> is \<open>False\<close>;
  else 3 when \<open>HSTS Preload Ready\<close> is \<open>True\<close>, also with an empty \<open>HSTS Max Age\<close>; else 0
  when the parsed \<open>HSTS Max Age\<close> is below 10886400; else 2 when \<open>HSTS All Subdomains\<close> is
  \<open>True\<close>; else 1. The block returns that score, and a row returned by \<open>https_row_for\<close>
  carries it.
\<close>

theorem hsts_ladder_holds:
  assumes "map_of i ''HSTS'' = Some h" "map_of i ''HSTS Preload Ready'' = Some p"
    "map_of i ''HSTS All Subdomains'' = Some a" "map_of i ''HSTS Max Age'' = Some s"
    "s = [] \<and> (https \<le> 0 \<or> h = ''False'' \<or> p = ''True'') \<or> s \<noteq> [] \<and> py_int s = Some n"
  shows "hsts_block i https = Inr (hsts_ladder https h p n a, if s = [] then None else Some n) \<and>
         (dd domain = Some r \<and> inspect r = Some i \<and> uses_https i = Inr https \<and>
          https_row_for dd domain = Inr row \<longrightarrow>
            h_https row = https \<and> h_hsts row = hsts_ladder https h p n a \<and>
            h_hsts_age row = (if s = [] then None else Some n))"
proof -
  note block = hsts_block_ladder [OF assms]
  have "h_https row = https \<and> h_hsts row = hsts_ladder https h p n a \<and>
        h_hsts_age row = (if s = [] then None else Some n)"
    if *: "dd domain = Some r" "inspect r = Some i" "uses_https i = Inr https"
      "https_row_for dd domain = Inr row"
  proof -
    from *(4) obtain r' i' d where
      **: "dd domain = Some r'" "inspect r' = Some i'"
      "map_of i' ''Canonical'' = Some (h_Canonical row)"
      "uses_https i' = Inr (h_https row)"
      "enforces_https i' (h_https row) = Inr (h_https_forced row)"
      "hsts_block i' (h_https row) = Inr (h_hsts row, h_hsts_age row)"
      "grade_block (tls r') (h_https row) = Inr d" "h_grade row = d_grade d"
      by (rule https_row_for_blocks)
    from *(1,2) **(1,2) have "i' = i" by simp
    with **(4) *(3) have eq: "h_https row = https" by simp
    with **(6) \<open>i' = i\<close> have "hsts_block i https = Inr (h_hsts row, h_hsts_age row)" by simp
    with block eq show ?thesis by simp
  qed
  with block show ?thesis by simp
qed

theorem hsts_ladder_holds_witness:
  "hsts_block example_inspect 2 = Inr (0, Some 10000000) \<and>
   h_hsts example_row = 0 \<and>
   hsts_block preload_inspect 2 = Inr (3, None)"
proof -
  have 1: "https_row_for (example_data example_inspect example_tls) ''example.gov'' = Inr example_row"
    by (rule example_row_for)
  have 2: "py_int ''10000000'' = Some 10000000"
    by (simp add: eval_classifier)
  have 3: "uses_https example_inspect = Inr 2"
    by (simp add: eval_classifier)
  have k: "map_of example_inspect ''HSTS'' = Some ''True''"
    "map_of example_inspect ''HSTS Preload Ready'' = Some ''False''"
    "map_of example_inspect ''HSTS All Subdomains'' = Some ''True''"
    "map_of example_inspect ''HSTS Max Age'' = Some ''10000000''"
    by (simp_all add: example_inspect_def)
  have k': "map_of preload_inspect ''HSTS'' = Some ''True''"
    "map_of preload_inspect ''HSTS Preload Ready'' = Some ''True''"
    "map_of preload_inspect ''HSTS All Subdomains'' = Some ''True''"
    "map_of preload_inspect ''HSTS Max Age'' = Some []"
    by (simp_all add: preload_inspect_def example_inspect_def)
  have a: "''10000000'' = [] \<and> ((2::int) \<le> 0 \<or> ''True'' = ''False'' \<or> ''False'' = ''True'') \<or>
      ''10000000'' \<noteq> [] \<and> py_int ''10000000'' = Some 10000000"
    using 2 by simp
  have a': "([]::string) = [] \<and> ((2::int) \<le> 0 \<or> ''True'' = ''False'' \<or> ''True'' = ''True'') \<or>
      ([]::string) \<noteq> [] \<and> py_int [] = Some 0"
    by simp
  have d: "example_data example_inspect example_tls ''example.gov'' =
      Some (example_rec example_inspect example_tls)"
    "inspect (example_rec example_inspect example_tls) = Some example_inspect"
    by (simp_all add: example_data_def example_rec_def)
  from hsts_ladder_holds [OF k a, of "example_data example_inspect example_tls" "''example.gov''"
      "example_rec example_inspect example_tls" example_row] d 1 3
    hsts_ladder_holds [OF k' a', of Map.empty "[]" undefined undefined]
  show ?thesis
    by (simp add: hsts_ladder_def)
qed

text \<open>
  C2, as stated: a max-age cell that does not parse as an integer, with \<open>HSTS\<close> being
  \<open>True\<close>, is treated as absent and classification does not fail. It fails: the cell
  \<open>abc\<close> makes \<open>https_row_for\<close> raise ValueError.
\<close>

theorem malformed_max_age_counterexample:
  "map_of malformed_inspect ''HSTS'' = Some ''True'' \<and>
   map_of malformed_inspect ''HSTS Max Age'' = Some ''abc'' \<and>
   py_int ''abc'' = None \<and>
   https_row_for (example_data malformed_inspect example_tls) ''example.gov'' = Inl ValueError"
  by (simp add: eval_classifier)

text \<open>
  C2, amended. An empty max-age cell is treated as absent: it parses to \<open>None\<close>, the HSTS
  block returns -1, 0 or 3 with the age \<open>None\<close> when the presence score is at most 0, when
  \<open>HSTS\<close> is \<open>False\<close>, or when \<open>HSTS\<close> is anything else and the domain is preload ready,
  and every row produced carries the age \<open>None\<close>. A non-empty cell that \<^verbatim>\<open>int\<close> rejects makes
  the block, and with it \<open>https_row_for\<close>, raise ValueError, whatever the presence score.
\<close>

theorem max_age_absent_or_rejected:
  assumes "map_of i ''HSTS Max Age'' = Some s"
  shows "(s = [] \<longrightarrow>
            parse_hsts_age i = Inr None \<and>
            (https \<le> 0 \<longrightarrow> hsts_block i https = Inr (- 1, None)) \<and>
            (0 < https \<and> map_of i ''HSTS'' = Some ''False'' \<longrightarrow>
               hsts_block i https = Inr (0, None)) \<and>
            (0 < https \<and> map_of i ''HSTS'' = Some h \<and> h \<noteq> ''False'' \<and>
             map_of i ''HSTS Preload Ready'' = Some ''True'' \<longrightarrow>
               hsts_block i https = Inr (3, None)) \<and>
            (dd domain = Some r \<and> inspect r = Some i \<and> https_row_for dd domain = Inr row \<longrightarrow>
               h_hsts_age row = None)) \<and>
         (s \<noteq> [] \<and> py_int s = None \<longrightarrow>
            hsts_block i https = Inl ValueError \<and>
            (dd domain = Some r \<and> inspect r = Some i \<and> map_of i ''Canonical'' = Some c \<and>
             uses_https i = Inr https \<and> enforces_https i https = Inr b \<longrightarrow>
               https_row_for dd domain = Inl ValueError))"
proof (cases "s = []")
  case True
  with assms have k: "map_of i ''HSTS Max Age'' = Some []" by simp
  have p: "parse_hsts_age i = Inr None"
    using parse_hsts_age_eval [OF k] by simp
  have 1: "hsts_block i https = Inr (- 1, None)" if "https \<le> 0"
    using that p by (simp add: hsts_block_def hsts_score_def)
  have 2: "hsts_block i https = Inr (0, None)" if "0 < https" "map_of i ''HSTS'' = Some ''False''"
    using that p by (simp add: hsts_block_def hsts_score_def item_is_def getitem_def)
  have 3: "hsts_block i https = Inr (3, None)"
    if "0 < https" "map_of i ''HSTS'' = Some h" "h \<noteq> ''False''"
      "map_of i ''HSTS Preload Ready'' = Some ''True''"
    using that p by (simp add: hsts_block_def hsts_score_def item_is_def getitem_def)
  have 4: "h_hsts_age row = None"
    if *: "dd domain = Some r" "inspect r = Some i" "https_row_for dd domain = Inr row"
  proof -
    from *(3) obtain r' i' d where
      **: "dd domain = Some r'" "inspect r' = Some i'"
      "map_of i' ''Canonical'' = Some (h_Canonical row)"
      "uses_https i' = Inr (h_https row)"
      "enforces_https i' (h_https row) = Inr (h_https_forced row)"
      "hsts_block i' (h_https row) = Inr (h_hsts row, h_hsts_age row)"
      "grade_block (tls r') (h_https row) = Inr d" "h_grade row = d_grade d"
      by (rule https_row_for_blocks)
    from *(1,2) **(1,2) have "i' = i" by simp
    with **(6) show ?thesis using hsts_block_age [OF k] by simp
  qed
  from True p 1 2 3 4 show ?thesis by simp
next
  case False
  have 1: "hsts_block i https = Inl ValueError" if "py_int s = None"
    using hsts_block_value_error [OF assms False that] .
  have 2: "https_row_for dd domain = Inl ValueError"
    if "py_int s = None" "dd domain = Some r" "inspect r = Some i" "map_of i ''Canonical'' = Some c"
      "uses_https i = Inr https" "enforces_https i https = Inr b"
    using that 1 [OF that(1)]
    by (intro https_row_for_hsts_error [where r = r and i = i and c = c and u = https and b = b])
  from False 1 2 show ?thesis by simp
qed

theorem max_age_absent_or_rejected_witness:
  "hsts_block preload_inspect 2 = Inr (3, None) \<and>
   hsts_block malformed_inspect 2 = Inl ValueError \<and>
   https_row_for (example_data malformed_inspect example_tls) ''example.gov'' = Inl ValueError"
proof -
  have k: "map_of preload_inspect ''HSTS Max Age'' = Some []"
    "map_of preload_inspect ''HSTS'' = Some ''True''"
    "map_of preload_inspect ''HSTS Preload Ready'' = Some ''True''"
    by (simp_all add: preload_inspect_def example_inspect_def)
  have m: "map_of malformed_inspect ''HSTS Max Age'' = Some ''abc''"
    "map_of malformed_inspect ''Canonical'' = Some ''https://example.gov''"
    "uses_https malformed_inspect = Inr 2" "enforces_https malformed_inspect 2 = Inr 3"
    "py_int ''abc'' = None"
    "example_data malformed_inspect example_tls ''example.gov'' =
       Some (example_rec malformed_inspect example_tls)"
    "inspect (example_rec malformed_inspect example_tls) = Some malformed_inspect"
    by (simp_all add: eval_classifier)
  from max_age_absent_or_rejected [OF k(1), of 2 "''True''"] k(2,3)
    max_age_absent_or_rejected [OF m(1), of 2 "''True''"
      "example_data malformed_inspect example_tls"
      "''example.gov''" "example_rec malformed_inspect example_tls" undefined
      "''https://example.gov''" 3] m
  show ?thesis by simp
qed




text \<open>
  C10. An agency name that is none of the four legislative names, not the judicial one and
  not \<open>Non-Federal Agency\<close> resolves to the branch \<open>executive\<close>. So a \<open>Federal Agency\<close>
  row of such an agency passes the non-federal filter and its domain enters the registry with
  the branch \<open>executive\<close>, and a domain with that branch meets the branch condition of
  \<open>evaluating_for_analytics\<close>.
\<close>

theorem unrecognized_agency_is_executive:
  assumes "agency_name \<notin> set [''Library of Congress'', ''The Legislative Branch (Congress)'',
      ''Government Printing Office'', ''Congressional Office of Compliance'']"
    "agency_name \<noteq> ''The Judicial Branch (Courts)''" "agency_name \<noteq> ''Non-Federal Agency''"
  shows "branch_for agency_name = ''executive'' \<and>
         (\<not> startswith (lower d) ''domain'' \<and> set (agencies st) \<subseteq> dom (agency_data st) \<longrightarrow>
            (\<exists>st'. load_domains_row [d, ''Federal Agency'', agency_name] st = Inr st' \<and>
               domain_data st' (lower d) =
                 Some \<lparr>branch = ''executive'', agency = agency_name, inspect = None, tls = None,
                       analytics = None\<rparr>)) \<and>
         (dd domain = Some r \<and> branch r = branch_for agency_name \<and> inspect r = Some i \<and>
          analytics r = Some an \<and> map_of i ''Live'' = Some ''True'' \<and>
          map_of i ''Redirect'' = Some ''False'' \<longrightarrow>
            evaluating_for_analytics dd domain = Inr True)"
proof -
  have b: "branch_for agency_name = ''executive''"
    using branch_for_executive [OF assms] .
  then have nf: "branch_for agency_name \<noteq> ''non-federal''" by simp
  have 2: "\<exists>st'. load_domains_row [d, ''Federal Agency'', agency_name] st = Inr st' \<and>
               domain_data st' (lower d) =
                 Some \<lparr>branch = ''executive'', agency = agency_name, inspect = None, tls = None,
                       analytics = None\<rparr>"
    if "\<not> startswith (lower d) ''domain''" "set (agencies st) \<subseteq> dom (agency_data st)"
    using load_domains_row_admits [OF nf that] b by simp
  have 3: "evaluating_for_analytics dd domain = Inr True"
    if "dd domain = Some r" "branch r = branch_for agency_name" "inspect r = Some i"
      "analytics r = Some an" "map_of i ''Live'' = Some ''True''"
      "map_of i ''Redirect'' = Some ''False''"
    unfolding evaluating_for_analytics_iff using that b by simp
  from b 2 3 show ?thesis by blast
qed

theorem unrecognized_agency_is_executive_witness:
  "branch_for ''Department of Examples'' = ''executive'' \<and>
   (\<exists>st'. load_domains_row [''EXAMPLE.GOV'', ''Federal Agency'', ''Department of Examples'']
             initial = Inr st' \<and>
           domain_data st' ''example.gov'' =
             Some \<lparr>branch = ''executive'', agency = ''Department of Examples'', inspect = None,
                   tls = None, analytics = None\<rparr>) \<and>
   evaluating_for_analytics (example_data example_inspect example_tls) ''example.gov'' = Inr True"
proof -
  have a: "''Department of Examples'' \<notin> set [''Library of Congress'',
      ''The Legislative Branch (Congress)'', ''Government Printing Office'',
      ''Congressional Office of Compliance'']"
    "''Department of Examples'' \<noteq> ''The Judicial Branch (Courts)''"
    "''Department of Examples'' \<noteq> ''Non-Federal Agency''"
    by simp_all
  have l: "lower ''EXAMPLE.GOV'' = ''example.gov''"
    by code_simp
  have s: "\<not> startswith (lower ''EXAMPLE.GOV'') ''domain''"
    "set (agencies initial) \<subseteq> dom (agency_data initial)"
    by (simp_all add: l startswith_def initial_def)
  have e: "example_data example_inspect example_tls ''example.gov'' =
      Some (example_rec example_inspect example_tls)"
    "branch (example_rec example_inspect example_tls) = ''executive''"
    "inspect (example_rec example_inspect example_tls) = Some example_inspect"
    "analytics (example_rec example_inspect example_tls) = Some example_analytics"
    "map_of example_inspect ''Live'' = Some ''True''"
    "map_of example_inspect ''Redirect'' = Some ''False''"
    by (simp_all add: example_data_def example_rec_def example_inspect_def)
  from unrecognized_agency_is_executive [OF a, of "''EXAMPLE.GOV''" initial
      "example_data example_inspect example_tls" "''example.gov''"
      "example_rec example_inspect example_tls" example_inspect example_analytics] s e l
  show ?thesis by simp
qed

text \<open>
  C9, as stated: a tls or analytics row of a registry domain without an inspect record is
  dropped, so that such a domain has neither sub-record after loading. The tls row is kept:
  with an empty inspect.csv the example domain is loaded with its tls record, without an
  inspect and without an analytics record.
\<close>

theorem tls_without_inspect_counterexample:
  "sub_records (load_data example_domains_csv [] (csv_of example_tls) (csv_of example_analytics)
     initial) ''example.gov'' = Inr (Some (None, Some example_tls, None))"
  by code_simp

text \<open>
  C9, amended. An analytics row of a registry domain without an inspect record is dropped
  silently, and after \<open>load_data\<close> a domain without an inspect record has no analytics
  record. A tls row of such a domain is attached: the tls loop tests registry membership only.
\<close>

theorem analytics_needs_inspect:
  "(load_data d i t a initial = Inr st \<and> domain_data st x = Some r \<and> inspect r = None \<longrightarrow>
      analytics r = None) \<and>
   (index row 0 = Inr r0 \<and> lower r0 \<noteq> ''domain'' \<and> domain_data st0 (lower r0) = Some r1 \<and>
    inspect r1 = None \<longrightarrow>
      load_analytics_row row (headers, st0) = Inr (headers, st0) \<and>
      (build_dict headers row = Inr dict_row \<longrightarrow>
         load_tls_row row (headers, st0) =
           Inr (headers, st0\<lparr>domain_data := (domain_data st0)(lower r0 \<mapsto>
                                  r1\<lparr>tls := Some dict_row\<rparr>)\<rparr>)))"
proof -
  have 1: "analytics r = None"
    if "load_data d i t a initial = Inr st" "domain_data st x = Some r" "inspect r = None"
    using anchored_load_data [OF anchored_initial that(1)] that(2,3)
    by (simp add: anchored_def)
  from 1 load_analytics_row_dropped load_tls_row_attached show ?thesis by blast
qed

theorem analytics_needs_inspect_witness:
  "analytics (bare_rec\<lparr>tls := Some example_tls\<rparr>) = None \<and>
   load_analytics_row [''example.gov'', ''True''] ([''Domain'', ''Participates in Analytics''], bare_state)
     = Inr ([''Domain'', ''Participates in Analytics''], bare_state) \<and>
   load_tls_row [''example.gov'', ''A''] ([''Domain'', ''Grade''], bare_state)
     = Inr ([''Domain'', ''Grade''], bare_state\<lparr>domain_data := (domain_data bare_state)(''example.gov'' \<mapsto>
              bare_rec\<lparr>tls := Some [(''Domain'', ''example.gov''), (''Grade'', ''A'')]\<rparr>)\<rparr>)"
proof -
  have l: "Inr (projr (load_data example_domains_csv [] (csv_of example_tls)
      (csv_of example_analytics) initial)) =
      load_data example_domains_csv [] (csv_of example_tls) (csv_of example_analytics) initial"
    using example_loaded by simp
  have i: "inspect (bare_rec\<lparr>tls := Some example_tls\<rparr>) = None" "inspect bare_rec = None"
    by (simp_all add: bare_rec_def)
  have lo: "lower ''example.gov'' = ''example.gov''"
    by code_simp
  have r: "index [''example.gov'', ''True''] 0 = Inr ''example.gov''"
    "index [''example.gov'', ''A''] 0 = Inr ''example.gov''"
    "lower ''example.gov'' \<noteq> ''domain''"
    "domain_data bare_state (lower ''example.gov'') = Some bare_rec"
    by (simp_all add: index_def lo bare_state_def)
  have b: "build_dict [''Domain'', ''Grade''] [''example.gov'', ''A''] =
      Inr [(''Domain'', ''example.gov''), (''Grade'', ''A'')]"
    by code_simp
  from analytics_needs_inspect [of example_domains_csv "[]" "csv_of example_tls"
      "csv_of example_analytics" "projr (load_data example_domains_csv [] (csv_of example_tls)
      (csv_of example_analytics) initial)" "''example.gov''" "bare_rec\<lparr>tls := Some example_tls\<rparr>"
      "[''example.gov'', ''True'']" "''example.gov''" bare_state bare_rec
      "[''Domain'', ''Participates in Analytics'']"] l example_loaded_rec i r
  have 1: "analytics (bare_rec\<lparr>tls := Some example_tls\<rparr>) = None"
    and 2: "load_analytics_row [''example.gov'', ''True'']
       ([''Domain'', ''Participates in Analytics''], bare_state)
     = Inr ([''Domain'', ''Participates in Analytics''], bare_state)"
    by simp_all
  from analytics_needs_inspect [of "[]" "[]" "[]" "[]" initial "[]" bare_rec
      "[''example.gov'', ''A'']" "''example.gov''" bare_state bare_rec
      "[''Domain'', ''Grade'']" "[(''Domain'', ''example.gov''), (''Grade'', ''A'')]"] i r b
  have 3: "load_tls_row [''example.gov'', ''A''] ([''Domain'', ''Grade''], bare_state)
     = Inr ([''Domain'', ''Grade''], bare_state\<lparr>domain_data := (domain_data bare_state)(''example.gov'' \<mapsto>
              bare_rec\<lparr>tls := Some [(''Domain'', ''example.gov''), (''Grade'', ''A'')]\<rparr>)\<rparr>)"
    by (simp add: lo)
  from 1 2 3 show ?thesis by simp
qed

text \<open>
  C7, as stated: \<^verbatim>\<open>percent\<close> rounds half up, so that \<^verbatim>\<open>percent(1, 8)\<close> is 13. It is 12: \<open>12.5\<close>
  is a double, and \<^verbatim>\<open>round\<close> takes a tie to the even integer.
\<close>

theorem percent_half_up_counterexample:
  "percent 1 8 = Inr 12 \<and> percent 1 8 \<noteq> Inr 13"
  by code_simp

text \<open>
  C7, amended. For integers \<open>0 \<le> n\<close> and \<open>0 < d\<close>, \<^verbatim>\<open>percent(n, d)\<close> returns the integer nearest
  to the double \<open>y\<close> that the two floating-point operations \<^verbatim>\<open>(n / d) * 100\<close> yield, the even one
  when \<open>y\<close> lies halfway between two integers; \<open>y\<close> differs from the exact \<open>100 n / d\<close> by at
  most \<open>100 n / d / 2 ^ 51 + 1 / 2 ^ 1068\<close>, the result is not negative, and for \<open>n \<le> d\<close> it is
  at most 100. The one exception is OverflowError, which needs \<open>100 n / d\<close> above \<open>2 ^ 1023\<close>
  and is certain from \<open>n / d = 2 ^ 1025\<close> on. In particular \<^verbatim>\<open>percent(1, 3)\<close> is 33 and
  \<^verbatim>\<open>percent(2, 3)\<close> is 67.
\<close>

theorem percent_rounds_half_even:
  assumes "0 \<le> n" "0 < d"
  shows "((percent n d = Inl OverflowError \<and> 2 ^ 1023 * d < 100 * n) \<or>
          (\<exists>p y. percent n d = Inr p \<and> y = fl (fl (of_int n / of_int d) * 100) \<and>
             \<bar>y - 100 * of_int n / of_int d\<bar> \<le> 100 * of_int n / of_int d / 2 ^ 51 + 1 / 2 ^ 1068 \<and>
             \<bar>of_int p - y\<bar> \<le> 1 / 2 \<and> (\<bar>of_int p - y\<bar> = 1 / 2 \<longrightarrow> even p) \<and> 0 \<le> p \<and>
             (n \<le> d \<longrightarrow> p \<le> 100 \<and> \<bar>y - 100 * of_int n / of_int d\<bar> \<le> 100 / 2 ^ 52))) \<and>
         (2 ^ 1025 * d \<le> n \<longrightarrow> percent n d = Inl OverflowError) \<and>
         percent 1 3 = Inr 33 \<and> percent 2 3 = Inr 67"
proof -
  let ?y = "fl (fl (of_int n / of_int d) * 100)"
  let ?p = "round_half_even ?y"
  let ?R = "\<exists>p y. percent n d = Inr p \<and> y = fl (fl (of_int n / of_int d) * 100) \<and>
             \<bar>y - 100 * of_int n / of_int d\<bar> \<le> 100 * of_int n / of_int d / 2 ^ 51 + 1 / 2 ^ 1068 \<and>
             \<bar>of_int p - y\<bar> \<le> 1 / 2 \<and> (\<bar>of_int p - y\<bar> = 1 / 2 \<longrightarrow> even p) \<and> 0 \<le> p \<and>
             (n \<le> d \<longrightarrow> p \<le> 100 \<and> \<bar>y - 100 * of_int n / of_int d\<bar> \<le> 100 / 2 ^ 52)"
  note e = percent_error [OF assms]
  have "of_int 0 \<le> ?y" using e(1) by simp
  then have p0: "0 \<le> ?p" by (rule round_half_even_ge)
  have r: "\<bar>of_int ?p - ?y\<bar> \<le> 1 / 2" by (rule round_half_even_error)
  have t: "\<bar>of_int ?p - ?y\<bar> = 1 / 2 \<longrightarrow> even ?p"
    using round_half_even_tie [of ?y] by blast
  have s: "n \<le> d \<longrightarrow> ?p \<le> 100 \<and> \<bar>?y - 100 * of_int n / of_int d\<bar> \<le> 100 / 2 ^ 52"
  proof
    assume le: "n \<le> d"
    note v = percent_value [OF assms(1) le assms(2)]
    have "?y \<le> of_int 100" using v(3) by simp
    then have "?p \<le> 100" by (rule round_half_even_le)
    with v(4) show "?p \<le> 100 \<and> \<bar>?y - 100 * of_int n / of_int d\<bar> \<le> 100 / 2 ^ 52" by simp
  qed
  have R: ?R if "percent n d = Inr ?p"
  proof -
    have "percent n d = Inr ?p \<and> ?y = fl (fl (of_int n / of_int d) * 100) \<and>
        \<bar>?y - 100 * of_int n / of_int d\<bar> \<le> 100 * of_int n / of_int d / 2 ^ 51 + 1 / 2 ^ 1068 \<and>
        \<bar>of_int ?p - ?y\<bar> \<le> 1 / 2 \<and> (\<bar>of_int ?p - ?y\<bar> = 1 / 2 \<longrightarrow> even ?p) \<and> 0 \<le> ?p \<and>
        (n \<le> d \<longrightarrow> ?p \<le> 100 \<and> \<bar>?y - 100 * of_int n / of_int d\<bar> \<le> 100 / 2 ^ 52)"
      using that e(2) r t p0 s by blast
    then show ?thesis by blast
  qed
  have 1: "(percent n d = Inl OverflowError \<and> 2 ^ 1023 * d < 100 * n) \<or> ?R"
  proof (cases "100 * n \<le> 2 ^ 1023 * d")
    case True
    from percent_returns [OF assms True] show ?thesis by (rule disjI2 [OF R])
  next
    case False
    with percent_cases [OF assms(2), of n] R show ?thesis by (simp only: not_le) blast
  qed
  have 2: "2 ^ 1025 * d \<le> n \<longrightarrow> percent n d = Inl OverflowError"
    using percent_overflow [OF assms(2)] by blast
  from 1 2 percent_one_third percent_two_thirds show ?thesis by (simp only: simp_thms)
qed

theorem percent_rounds_half_even_witness:
  "percent 3 2 = Inr 150 \<and> percent 1 8 = Inr 12 \<and> even (12::int) \<and>
   fl (fl (1 / 8) * 100) = 25 / 2 \<and> percent (2 ^ 1025) 1 = Inl OverflowError"
proof -
  have 1: "percent 1 8 = Inr 12" by (rule percent_one_eighth)
  have 2: "fl (fl (1 / 8) * 100) = 25 / 2" by code_simp
  from percent_rounds_half_even [of 3 2] percent_rounds_half_even [of 1 8]
    percent_rounds_half_even [of "2 ^ 1025" 1] percent_over 1 2
  show ?thesis by simp
qed

text \<open>
  C6. For a non-empty list of HTTPS rows the summary table has the rows \<open>status, value\<close>,
  \<open>active, pct\<close> and \<open>inactive, 100 - pct\<close>, where \<open>pct\<close> is \<^verbatim>\<open>percent\<close> of the number of rows with
  presence score at least 1 and enforcement score at least 1, out of all rows; for a non-empty
  list of analytics rows the table is built the same way from the number of rows with
  participation score at least 1. Both percentages lie between 0 and 100, and with both lists
  non-empty \<^verbatim>\<open>process_stats\<close> stores the two tables.
\<close>

theorem summary_buckets:
  "(rows \<noteq> [] \<longrightarrow>
      (\<exists>pct. percent (int (length (filter (\<lambda>r. 1 \<le> h_https r \<and> 1 \<le> h_https_forced r) rows)))
                (int (length rows)) = Inr pct \<and> 0 \<le> pct \<and> pct \<le> 100 \<and>
             https_summary rows =
               Inr [[S ''status'', S ''value''], [S ''active'', I pct], [S ''inactive'', I (100 - pct)]])) \<and>
   (arows \<noteq> [] \<longrightarrow>
      (\<exists>pct. percent (int (length (filter (\<lambda>r. 1 \<le> a_dap r) arows))) (int (length arows)) = Inr pct \<and>
             0 \<le> pct \<and> pct \<le> 100 \<and>
             analytics_summary arows =
               Inr [[S ''status'', S ''value''], [S ''active'', I pct], [S ''inactive'', I (100 - pct)]])) \<and>
   (https_domains st = rows \<and> analytics_domains st = arows \<and> rows \<noteq> [] \<and> arows \<noteq> [] \<longrightarrow>
      (\<exists>t u. https_summary rows = Inr t \<and> analytics_summary arows = Inr u \<and>
             process_stats st = Inr (st\<lparr>https_stats := t, analytics_stats := u\<rparr>)))"
proof -
  have 1: "\<exists>pct. percent (int (length (filter (\<lambda>r. 1 \<le> h_https r \<and> 1 \<le> h_https_forced r) rows)))
                (int (length rows)) = Inr pct \<and> 0 \<le> pct \<and> pct \<le> 100 \<and>
             https_summary rows =
               Inr [[S ''status'', S ''value''], [S ''active'', I pct], [S ''inactive'', I (100 - pct)]]"
    if "rows \<noteq> []"
  proof -
    from percent_of_filter [OF that] obtain p where
      p: "percent (int (length (filter (\<lambda>r. 1 \<le> h_https r \<and> 1 \<le> h_https_forced r) rows)))
            (int (length rows)) = Inr p" "0 \<le> p" "p \<le> 100"
      by blast
    from https_summary_eq [OF p(1)] p show ?thesis by (simp add: table_of_def)
  qed
  have 2: "\<exists>pct. percent (int (length (filter (\<lambda>r. 1 \<le> a_dap r) arows))) (int (length arows)) = Inr pct \<and>
             0 \<le> pct \<and> pct \<le> 100 \<and>
             analytics_summary arows =
               Inr [[S ''status'', S ''value''], [S ''active'', I pct], [S ''inactive'', I (100 - pct)]]"
    if "arows \<noteq> []"
  proof -
    from percent_of_filter [OF that] obtain p where
      p: "percent (int (length (filter (\<lambda>r. 1 \<le> a_dap r) arows))) (int (length arows)) = Inr p"
        "0 \<le> p" "p \<le> 100"
      by blast
    from analytics_summary_eq [OF p(1)] p show ?thesis by (simp add: table_of_def)
  qed
  have 3: "\<exists>t u. https_summary rows = Inr t \<and> analytics_summary arows = Inr u \<and>
             process_stats st = Inr (st\<lparr>https_stats := t, analytics_stats := u\<rparr>)"
    if "https_domains st = rows" "analytics_domains st = arows" "rows \<noteq> []" "arows \<noteq> []"
  proof -
    from 1 [OF that(3)] obtain t where t: "https_summary rows = Inr t" by blast
    from 2 [OF that(4)] obtain u where u: "analytics_summary arows = Inr u" by blast
    from t u that(1,2) have "process_stats st = Inr (st\<lparr>https_stats := t, analytics_stats := u\<rparr>)"
      by (simp add: process_stats_def)
    with t u show ?thesis by blast
  qed
  from 1 2 3 show ?thesis by blast
qed

theorem summary_buckets_witness:
  "https_summary [example_row] =
     Inr [[S ''status'', S ''value''], [S ''active'', I 100], [S ''inactive'', I 0]] \<and>
   analytics_summary [\<lparr>a_Domain = ''example.gov'', a_Canonical = ''https://example.gov'',
       a_Agency = ''Department of Examples'', a_dap = 1\<rparr>] =
     Inr [[S ''status'', S ''value''], [S ''active'', I 100], [S ''inactive'', I 0]] \<and>
   process_stats ((example_state example_inspect example_tls)\<lparr>https_domains := [example_row],
       analytics_domains := [\<lparr>a_Domain = ''example.gov'', a_Canonical = ''https://example.gov'',
         a_Agency = ''Department of Examples'', a_dap = 1\<rparr>]\<rparr>) =
     Inr ((example_state example_inspect example_tls)\<lparr>https_domains := [example_row],
       analytics_domains := [\<lparr>a_Domain = ''example.gov'', a_Canonical = ''https://example.gov'',
         a_Agency = ''Department of Examples'', a_dap = 1\<rparr>],
       https_stats := [[S ''status'', S ''value''], [S ''active'', I 100], [S ''inactive'', I 0]],
       analytics_stats := [[S ''status'', S ''value''], [S ''active'', I 100], [S ''inactive'', I 0]]\<rparr>)"
  using summary_buckets [of "[example_row]"
      "[\<lparr>a_Domain = ''example.gov'', a_Canonical = ''https://example.gov'',
         a_Agency = ''Department of Examples'', a_dap = 1\<rparr>]"
      "(example_state example_inspect example_tls)\<lparr>https_domains := [example_row],
       analytics_domains := [\<lparr>a_Domain = ''example.gov'', a_Canonical = ''https://example.gov'',
         a_Agency = ''Department of Examples'', a_dap = 1\<rparr>]\<rparr>"] percent_all
  by (auto simp add: example_row_def)

text \<open>
  C5. Let every agency of the registry have its member list and every listed domain classify:
  \<open>eh d\<close> and \<open>ea d\<close> say whether the domain \<open>d\<close> is evaluated for HTTPS and for analytics,
  \<open>hrow d\<close> and \<open>arow d\<close> are its rows. Then \<^verbatim>\<open>process_domains\<close> returns, and what it appends to
  the HTTPS rollup is one row for each agency, in order, whose HTTPS-eligible member
  occurrences are not none, and no row for any other agency; likewise for the analytics
  rollup and the analytics-eligible occurrences. The HTTPS row of an agency carries the number
  of its eligible occurrences and \<^verbatim>\<open>percent\<close> of the numbers of those with presence score at
  least 1, enforcement score at least 2, HSTS score at least 1 and grade score at least 4, out
  of that number; the analytics row carries \<^verbatim>\<open>percent\<close> of the number of those with
  participation score at least 1.
\<close>

theorem agency_rollup:
  assumes "\<forall>a\<in>set (agencies st). agency_data st a = Some (members a)"
    and "\<forall>d\<in>set (domains st) \<union> (\<Union>a\<in>set (agencies st). set (members a)).
      evaluating_for_https (domain_data st) d = Inr (eh d) \<and>
      (eh d \<longrightarrow> https_row_for (domain_data st) d = Inr (hrow d)) \<and>
      evaluating_for_analytics (domain_data st) d = Inr (ea d) \<and>
      (ea d \<longrightarrow> analytics_row_for (domain_data st) d = Inr (arow d))"
  shows "\<exists>hr ar.
      process_domains st =
        Inr (st\<lparr>https_domains := https_domains st @ map hrow (filter eh (domains st)),
               analytics_domains := analytics_domains st @ map arow (filter ea (domains st)),
               https_agencies := https_agencies st @ hr,
               analytics_agencies := analytics_agencies st @ ar\<rparr>) \<and>
      map ha_Agency hr = filter (\<lambda>a. 0 < length (filter eh (members a))) (agencies st) \<and>
      map aa_Agency ar = filter (\<lambda>a. 0 < length (filter ea (members a))) (agencies st) \<and>
      list_all2 (\<lambda>a row. https_rollup_row a (map hrow (filter eh (members a))) row)
        (filter (\<lambda>a. 0 < length (filter eh (members a))) (agencies st)) hr \<and>
      list_all2 (\<lambda>a row. analytics_rollup_row a (map arow (filter ea (members a))) row)
        (filter (\<lambda>a. 0 < length (filter ea (members a))) (agencies st)) ar"
proof -
  let ?st1 = "st\<lparr>https_domains := https_domains st @ map hrow (filter eh (domains st)),
               analytics_domains := analytics_domains st @ map arow (filter ea (domains st))\<rparr>"
  from assms(2) have d: "\<forall>d\<in>set (domains st).
      evaluating_for_https (domain_data st) d = Inr (eh d) \<and>
      (eh d \<longrightarrow> https_row_for (domain_data st) d = Inr (hrow d)) \<and>
      evaluating_for_analytics (domain_data st) d = Inr (ea d) \<and>
      (ea d \<longrightarrow> analytics_row_for (domain_data st) d = Inr (arow d))"
    by blast
  have 1: "foldE process_domain (domains st) st = Inr ?st1"
    by (rule foldE_process_domain [OF d refl])
  from assms have a: "\<forall>a\<in>set (agencies st). agency_data st a = Some (members a) \<and>
      (\<forall>d\<in>set (members a).
        evaluating_for_https (domain_data st) d = Inr (eh d) \<and>
        (eh d \<longrightarrow> https_row_for (domain_data st) d = Inr (hrow d)) \<and>
        evaluating_for_analytics (domain_data st) d = Inr (ea d) \<and>
        (ea d \<longrightarrow> analytics_row_for (domain_data st) d = Inr (arow d)))"
    by blast
  have i: "domain_data ?st1 = domain_data st" "agency_data ?st1 = agency_data st" by simp_all
  from foldE_process_agency [OF a i] obtain hr ar where
    2: "foldE process_agency (agencies st) ?st1 =
       Inr (?st1\<lparr>https_agencies := https_agencies ?st1 @ hr,
              analytics_agencies := analytics_agencies ?st1 @ ar\<rparr>)" and
    lh: "list_all2 (\<lambda>a row. https_rollup_row a (map hrow (filter eh (members a))) row)
       (filter (\<lambda>a. filter eh (members a) \<noteq> []) (agencies st)) hr" and
    la: "list_all2 (\<lambda>a row. analytics_rollup_row a (map arow (filter ea (members a))) row)
       (filter (\<lambda>a. filter ea (members a) \<noteq> []) (agencies st)) ar"
    by blast
  have 3: "process_domains st =
        Inr (st\<lparr>https_domains := https_domains st @ map hrow (filter eh (domains st)),
               analytics_domains := analytics_domains st @ map arow (filter ea (domains st)),
               https_agencies := https_agencies st @ hr,
               analytics_agencies := analytics_agencies st @ ar\<rparr>)"
    using 1 2 by (simp add: process_domains_def)
  from lh have "list_all2 (\<lambda>a row. ha_Agency row = a)
       (filter (\<lambda>a. filter eh (members a) \<noteq> []) (agencies st)) hr"
    by (rule list_all2_mono) (simp add: https_rollup_row_def)
  then have 4: "map ha_Agency hr = filter (\<lambda>a. filter eh (members a) \<noteq> []) (agencies st)"
    by (rule list_all2_map_eq)
  from la have "list_all2 (\<lambda>a row. aa_Agency row = a)
       (filter (\<lambda>a. filter ea (members a) \<noteq> []) (agencies st)) ar"
    by (rule list_all2_mono) (simp add: analytics_rollup_row_def)
  then have 5: "map aa_Agency ar = filter (\<lambda>a. filter ea (members a) \<noteq> []) (agencies st)"
    by (rule list_all2_map_eq)
  from 3 4 5 lh la show ?thesis by (simp only: length_greater_0_conv) blast
qed

theorem agency_rollup_witness:
  "process_domains rollup_state =
     Inr (rollup_state
       \<lparr>https_domains := [example_row, other_row],
        analytics_domains :=
          [example_analytics_row ''example.gov'' 1, example_analytics_row ''other.gov'' 0],
        https_agencies := [\<lparr>ha_Agency = ''Department of Examples'', ha_Number_of_Domains = 2,
           ha_https = 50, ha_https_forced = 50, ha_hsts = 0, ha_grade_agencies = 50\<rparr>],
        analytics_agencies := [\<lparr>aa_Agency = ''Department of Examples'', aa_Number_of_Domains = 2,
           aa_dap = 50\<rparr>]\<rparr>)"
proof -
  let ?members = "\<lambda>a. if a = ''Department of Examples'' then [''example.gov'', ''other.gov'']
                      else [''court.gov'']"
  let ?e = "\<lambda>d. d \<noteq> ''court.gov''"
  let ?hrow = "\<lambda>d. if d = ''example.gov'' then example_row else other_row"
  let ?arow = "\<lambda>d. if d = ''example.gov'' then example_analytics_row ''example.gov'' 1
                   else example_analytics_row ''other.gov'' 0"
  have s: "agencies rollup_state = [''Department of Examples'', ''Example Court'']"
    "domains rollup_state = [''court.gov'', ''example.gov'', ''other.gov'']"
    "agency_data rollup_state ''Department of Examples'' = Some [''example.gov'', ''other.gov'']"
    "agency_data rollup_state ''Example Court'' = Some [''court.gov'']"
    "https_domains rollup_state = []" "analytics_domains rollup_state = []"
    "https_agencies rollup_state = []" "analytics_agencies rollup_state = []"
    by (simp_all add: rollup_state_def initial_def)
  have m: "\<forall>a\<in>set (agencies rollup_state). agency_data rollup_state a = Some (?members a)"
    by (simp add: s)
  have c: "\<forall>d\<in>set (domains rollup_state) \<union> (\<Union>a\<in>set (agencies rollup_state). set (?members a)).
      evaluating_for_https (domain_data rollup_state) d = Inr (?e d) \<and>
      (?e d \<longrightarrow> https_row_for (domain_data rollup_state) d = Inr (?hrow d)) \<and>
      evaluating_for_analytics (domain_data rollup_state) d = Inr (?e d) \<and>
      (?e d \<longrightarrow> analytics_row_for (domain_data rollup_state) d = Inr (?arow d))"
    by (simp add: s rollup_state_classified rollup_state_rows)
  from agency_rollup [OF m c] obtain hr ar where
    p: "process_domains rollup_state =
        Inr (rollup_state\<lparr>https_domains := https_domains rollup_state @
                 map ?hrow (filter ?e (domains rollup_state)),
               analytics_domains := analytics_domains rollup_state @
                 map ?arow (filter ?e (domains rollup_state)),
               https_agencies := https_agencies rollup_state @ hr,
               analytics_agencies := analytics_agencies rollup_state @ ar\<rparr>)" and
    lh: "list_all2 (\<lambda>a row. https_rollup_row a (map ?hrow (filter ?e (?members a))) row)
        (filter (\<lambda>a. 0 < length (filter ?e (?members a))) (agencies rollup_state)) hr" and
    la: "list_all2 (\<lambda>a row. analytics_rollup_row a (map ?arow (filter ?e (?members a))) row)
        (filter (\<lambda>a. 0 < length (filter ?e (?members a))) (agencies rollup_state)) ar"
    by blast
  from lh have hr: "hr = [\<lparr>ha_Agency = ''Department of Examples'', ha_Number_of_Domains = 2,
           ha_https = 50, ha_https_forced = 50, ha_hsts = 0, ha_grade_agencies = 50\<rparr>]"
    by (auto simp add: s list_all2_Cons1 https_rollup_row_def percent_half example_row_def
        other_row_def downgraded_row_def)
  from la have ar: "ar = [\<lparr>aa_Agency = ''Department of Examples'', aa_Number_of_Domains = 2,
           aa_dap = 50\<rparr>]"
    by (auto simp add: s list_all2_Cons1 analytics_rollup_row_def percent_half
        example_analytics_row_def)
  from p hr ar show ?thesis by (simp add: s)
qed

end
